theory Spec2Isabelle
  imports Main "HOL-Library.Word"
begin

unbundle bit_operations_syntax

chapter \<open>The model of the program\<close>

section \<open>JavaScript strings and values\<close>

text \<open>
  A JavaScript string is a sequence of 16-bit code units; a byte array
  (\<^verbatim>\<open>Uint8Array\<close>) is a sequence of 8-bit values. String literals of the
  source are written \<open>str ''...''\<close>.
\<close>

type_synonym jsstring = "16 word list"
type_synonym bytes = "8 word list"

definition str :: "string \<Rightarrow> jsstring" where
  "str s = map of_char s"

text \<open>\<^verbatim>\<open>s.startsWith(p)\<close> and \<^verbatim>\<open>s.slice(n)\<close> for \<open>n \<ge> 0\<close>.\<close>

definition startsWith :: "jsstring \<Rightarrow> jsstring \<Rightarrow> bool" where
  "startsWith s p = (take (length p) s = p)"


text \<open>
  \<^verbatim>\<open>s.split(sep)\<close> for a separator of one character: the segments between the
  separators, at least one. (The result of the recursive call is never empty; the
  first case is there for totality.)
\<close>

fun split :: "jsstring \<Rightarrow> 16 word \<Rightarrow> jsstring list" where
  "split [] sep = [[]]"
| "split (c # cs) sep =
     (case split cs sep of
        [] \<Rightarrow> [[c]]
      | p # ps \<Rightarrow> if c = sep then [] # p # ps else (c # p) # ps)"

text \<open>
  \<^verbatim>\<open>s.replace(/c/g, r)\<close> for a pattern of one character: every occurrence of \<open>c\<close>
  becomes the string \<open>r\<close>.
\<close>

definition replaceAll :: "16 word \<Rightarrow> jsstring \<Rightarrow> jsstring \<Rightarrow> jsstring" where
  "replaceAll c r s = concat (map (\<lambda>x. if x = c then r else [x]) s)"

text \<open>
  A value of type \<^verbatim>\<open>string | null\<close> is an option. It is truthy when it is neither
  \<^verbatim>\<open>null\<close> (or \<^verbatim>\<open>undefined\<close>) nor the empty string; \<open>present\<close> is the string of a
  truthy value.
\<close>

definition truthy :: "jsstring option \<Rightarrow> bool" where
  "truthy v = (case v of None \<Rightarrow> False | Some s \<Rightarrow> s \<noteq> [])"

definition present :: "jsstring option \<Rightarrow> jsstring" where
  "present v = (case v of None \<Rightarrow> [] | Some s \<Rightarrow> s)"

text \<open>
  Exceptions of the source are values. \<open>ApiError message statusCode\<close> is the
  repository's own error class (\<^verbatim>\<open>src/types\<close>); \<open>SyntaxError\<close> is what
  \<^verbatim>\<open>JSON.parse\<close> throws and \<open>InvalidCharacterError\<close> what \<^verbatim>\<open>atob\<close> throws.
\<close>

datatype error =
    ApiError string nat
  | SyntaxError
  | InvalidCharacterError

section \<open>Bearer extraction (\<^verbatim>\<open>extractTokenFromHeader\<close>)\<close>



section \<open>Authorization policy (\<^verbatim>\<open>hasPermission\<close>)\<close>


definition objectPrototypeKeys :: "jsstring list" where
  "objectPrototypeKeys = map str
     [''constructor'', ''__defineGetter__'', ''__defineSetter__'', ''hasOwnProperty'',
      ''__lookupGetter__'', ''__lookupSetter__'', ''isPrototypeOf'',
      ''propertyIsEnumerable'', ''toString'', ''valueOf'', ''__proto__'',
      ''toLocaleString'']"






section \<open>Platform functions of the codec\<close>

subsection \<open>\<^verbatim>\<open>btoa\<close> and \<^verbatim>\<open>atob\<close>\<close>

text \<open>
  The base64 alphabet: the character code of a 6-bit value, and the 6-bit value of a
  character code.
\<close>

definition base64Code :: "nat \<Rightarrow> nat" where
  "base64Code i =
     (if i < 26 then 65 + i
      else if i < 52 then 97 + (i - 26)
      else if i < 62 then 48 + (i - 52)
      else if i = 62 then 43
      else 47)"

definition base64Index :: "nat \<Rightarrow> nat option" where
  "base64Index n =
     (if 65 \<le> n \<and> n \<le> 90 then Some (n - 65)
      else if 97 \<le> n \<and> n \<le> 122 then Some (n - 97 + 26)
      else if 48 \<le> n \<and> n \<le> 57 then Some (n - 48 + 52)
      else if n = 43 then Some 62
      else if n = 47 then Some 63
      else None)"

text \<open>
  \<^verbatim>\<open>btoa(String.fromCharCode(...data))\<close>, as the source calls it on a byte array:
  three bytes give four characters, and a last group of one or two bytes is padded
  with \<open>=\<close> (code 61). Every code unit of the argument is a byte, so the range check
  of \<^verbatim>\<open>btoa\<close> cannot fail.
\<close>

fun btoaGroups :: "nat list \<Rightarrow> nat list" where
  "btoaGroups (a # b # c # rest) =
     [base64Code (a div 4), base64Code ((a mod 4) * 16 + b div 16),
      base64Code ((b mod 16) * 4 + c div 64), base64Code (c mod 64)] @ btoaGroups rest"
| "btoaGroups [a, b] =
     [base64Code (a div 4), base64Code ((a mod 4) * 16 + b div 16),
      base64Code ((b mod 16) * 4), 61]"
| "btoaGroups [a] =
     [base64Code (a div 4), base64Code ((a mod 4) * 16), 61, 61]"
| "btoaGroups [] = []"

definition btoa :: "bytes \<Rightarrow> jsstring" where
  "btoa data = map of_nat (btoaGroups (map unat data))"

text \<open>
  \<^verbatim>\<open>atob\<close> is the forgiving base64 decoder of the platform: it removes ASCII
  whitespace; if the length is then a multiple of 4 it removes one or two \<open>=\<close> at the
  end; it fails if the length leaves remainder 1 modulo 4 or a character is outside
  the alphabet; it decodes four characters to three bytes, and a last group of two or
  three characters to one or two bytes. The result is the byte array the source
  reads off the binary string with \<^verbatim>\<open>charCodeAt\<close>.
\<close>

definition isAsciiWhitespace :: "16 word \<Rightarrow> bool" where
  "isAsciiWhitespace c = (c = 9 \<or> c = 10 \<or> c = 12 \<or> c = 13 \<or> c = 32)"

fun dropPadding :: "jsstring \<Rightarrow> jsstring" where
  "dropPadding (x # y # r) =
     (if x = 61 \<and> y = 61 then r else if x = 61 then y # r else x # y # r)"
| "dropPadding [x] = (if x = 61 then [] else [x])"
| "dropPadding [] = []"

definition removePadding :: "jsstring \<Rightarrow> jsstring" where
  "removePadding s = (if length s mod 4 = 0 then rev (dropPadding (rev s)) else s)"

fun atobGroups :: "nat list \<Rightarrow> nat list" where
  "atobGroups (a # b # c # d # rest) =
     [a * 4 + b div 16, (b mod 16) * 16 + c div 4, (c mod 4) * 64 + d] @ atobGroups rest"
| "atobGroups [a, b, c] = [a * 4 + b div 16, (b mod 16) * 16 + c div 4]"
| "atobGroups [a, b] = [a * 4 + b div 16]"
| "atobGroups _ = []"

definition atob :: "jsstring \<Rightarrow> error + bytes" where
  "atob s =
     (let d = removePadding (filter (\<lambda>c. \<not> isAsciiWhitespace c) s) in
      if length d mod 4 = 1 then Inl InvalidCharacterError
      else if list_ex (\<lambda>c. base64Index (unat c) = None) d then Inl InvalidCharacterError
      else Inr (map of_nat (atobGroups (map (\<lambda>c. the (base64Index (unat c))) d))))"

subsection \<open>\<^verbatim>\<open>TextEncoder\<close> and \<^verbatim>\<open>TextDecoder\<close>\<close>

text \<open>
  \<^verbatim>\<open>new TextEncoder().encode(s)\<close>: the code units are read as code points, a
  surrogate pair as one code point and a lone surrogate as U+FFFD, and each code point
  is written in UTF-8.
\<close>

definition isHighSurrogate :: "nat \<Rightarrow> bool" where
  "isHighSurrogate u = (0xD800 \<le> u \<and> u \<le> 0xDBFF)"

definition isLowSurrogate :: "nat \<Rightarrow> bool" where
  "isLowSurrogate u = (0xDC00 \<le> u \<and> u \<le> 0xDFFF)"

fun codePoints :: "nat list \<Rightarrow> nat list" where
  "codePoints (u # v # rest) =
     (if isHighSurrogate u \<and> isLowSurrogate v
      then (0x10000 + (u - 0xD800) * 0x400 + (v - 0xDC00)) # codePoints rest
      else (if isHighSurrogate u \<or> isLowSurrogate u then 0xFFFD else u) # codePoints (v # rest))"
| "codePoints [u] = [if isHighSurrogate u \<or> isLowSurrogate u then 0xFFFD else u]"
| "codePoints [] = []"

definition utf8EncodeCodePoint :: "nat \<Rightarrow> nat list" where
  "utf8EncodeCodePoint cp =
     (if cp < 0x80 then [cp]
      else if cp < 0x800 then [0xC0 + cp div 64, 0x80 + cp mod 64]
      else if cp < 0x10000 then
        [0xE0 + cp div 4096, 0x80 + (cp div 64) mod 64, 0x80 + cp mod 64]
      else [0xF0 + cp div 262144, 0x80 + (cp div 4096) mod 64,
            0x80 + (cp div 64) mod 64, 0x80 + cp mod 64])"

definition TextEncoder_encode :: "jsstring \<Rightarrow> bytes" where
  "TextEncoder_encode s =
     map of_nat (concat (map utf8EncodeCodePoint (codePoints (map unat s))))"

text \<open>
  \<^verbatim>\<open>new TextDecoder().decode(bytes)\<close>: the UTF-8 decoder of the platform, not fatal
  and not ignoring the byte order mark. A byte that cannot start or continue a
  sequence gives U+FFFD, and decoding goes on at the byte that did not fit; a byte
  order mark at the start is dropped; a code point above U+FFFF becomes a surrogate
  pair.
\<close>

definition inRange :: "nat \<Rightarrow> nat \<Rightarrow> nat \<Rightarrow> bool" where
  "inRange lo hi b = (lo \<le> b \<and> b \<le> hi)"

fun utf8Decode :: "nat list \<Rightarrow> nat list" where
  "utf8Decode [] = []"
| "utf8Decode (b # bs) =
     (if b < 0x80 then b # utf8Decode bs
      else if inRange 0xC2 0xDF b then
        (case bs of
           [] \<Rightarrow> [0xFFFD]
         | c # cs \<Rightarrow>
             if \<not> inRange 0x80 0xBF c then 0xFFFD # utf8Decode bs
             else ((b mod 32) * 64 + c mod 64) # utf8Decode cs)
      else if inRange 0xE0 0xEF b then
        (case bs of
           [] \<Rightarrow> [0xFFFD]
         | c # cs \<Rightarrow>
             if \<not> inRange (if b = 0xE0 then 0xA0 else 0x80) (if b = 0xED then 0x9F else 0xBF) c
             then 0xFFFD # utf8Decode bs
             else (case cs of
                     [] \<Rightarrow> [0xFFFD]
                   | d # ds \<Rightarrow>
                       if \<not> inRange 0x80 0xBF d then 0xFFFD # utf8Decode cs
                       else ((b mod 16) * 4096 + (c mod 64) * 64 + d mod 64) # utf8Decode ds))
      else if inRange 0xF0 0xF4 b then
        (case bs of
           [] \<Rightarrow> [0xFFFD]
         | c # cs \<Rightarrow>
             if \<not> inRange (if b = 0xF0 then 0x90 else 0x80) (if b = 0xF4 then 0x8F else 0xBF) c
             then 0xFFFD # utf8Decode bs
             else (case cs of
                     [] \<Rightarrow> [0xFFFD]
                   | d # ds \<Rightarrow>
                       if \<not> inRange 0x80 0xBF d then 0xFFFD # utf8Decode cs
                       else (case ds of
                               [] \<Rightarrow> [0xFFFD]
                             | e # es \<Rightarrow>
                                 if \<not> inRange 0x80 0xBF e then 0xFFFD # utf8Decode ds
                                 else ((b mod 8) * 262144 + (c mod 64) * 4096
                                       + (d mod 64) * 64 + e mod 64) # utf8Decode es)))
      else 0xFFFD # utf8Decode bs)"

definition codeUnits :: "nat \<Rightarrow> nat list" where
  "codeUnits cp =
     (if cp < 0x10000 then [cp]
      else [0xD800 + (cp - 0x10000) div 0x400, 0xDC00 + (cp - 0x10000) mod 0x400])"

definition TextDecoder_decode :: "bytes \<Rightarrow> jsstring" where
  "TextDecoder_decode data =
     (let data' = (if take 3 data = [0xEF, 0xBB, 0xBF] then drop 3 data else data)
      in map of_nat (concat (map codeUnits (utf8Decode (map unat data')))))"

text \<open>
  \<^verbatim>\<open>s.isWellFormed()\<close>: the string has no lone surrogate.
\<close>

fun wellFormedUnits :: "nat list \<Rightarrow> bool" where
  "wellFormedUnits (u # v # rest) =
     (if isHighSurrogate u then isLowSurrogate v \<and> wellFormedUnits rest
      else \<not> isLowSurrogate u \<and> wellFormedUnits (v # rest))"
| "wellFormedUnits [u] = (\<not> isHighSurrogate u \<and> \<not> isLowSurrogate u)"
| "wellFormedUnits [] = True"

definition isWellFormed :: "jsstring \<Rightarrow> bool" where
  "isWellFormed s = wellFormedUnits (map unat s)"


section \<open>Codec (\<^verbatim>\<open>JWT.base64UrlEncode\<close>, \<^verbatim>\<open>JWT.base64UrlDecode\<close>)\<close>

text \<open>
  \<^verbatim>\<open>
  private base64UrlEncode(str: string): string {
    const data = new TextEncoder().encode(str);
    const base64 = btoa(String.fromCharCode(...data));
    return base64 with every '+' replaced by '-', every '/' by '_', every '=' removed;
  }
  \<close>
\<close>

definition base64UrlEncode :: "jsstring \<Rightarrow> jsstring" where
  "base64UrlEncode s =
     (let data = TextEncoder_encode s;
          base64 = btoa data
      in replaceAll 61 [] (replaceAll 47 [95] (replaceAll 43 [45] base64)))"

text \<open>
  \<^verbatim>\<open>
  private base64UrlDecode(str: string): string {
    str += '='.repeat((4 - str.length % 4) % 4);
    str = str with every '-' replaced by '+' and every '_' by '/';
    const binary = atob(str);
    ... bytes[i] = binary.charCodeAt(i) ...
    return new TextDecoder().decode(bytes);
  }
  \<close>
\<close>

definition base64UrlDecode :: "jsstring \<Rightarrow> error + jsstring" where
  "base64UrlDecode s =
     (let s1 = s @ replicate ((4 - length s mod 4) mod 4) 61;
          s2 = replaceAll 95 [47] (replaceAll 45 [43] s1)
      in case atob s2 of
           Inl e \<Rightarrow> Inl e
         | Inr data \<Rightarrow> Inr (TextDecoder_decode data))"

section \<open>Token engine (class \<^verbatim>\<open>JWT\<close>)\<close>

text \<open>
  The claims of \<^verbatim>\<open>JWTPayload\<close> (\<^verbatim>\<open>src/types\<close>):
  \<^verbatim>\<open>
  userId: string; email: string; role: string; iat: number; exp: number;
  type?: 'access' | 'refresh'; jti?: string;
  \<close>
  in three layers: the identity claims, the claims handed to \<open>sign\<close>
  (\<^verbatim>\<open>Omit<JWTPayload, 'iat' | 'exp'>\<close>), and the full payload. An optional field is an
  option, \<open>None\<close> for an absent one. Times are whole seconds.
\<close>

record UserClaims =
  userId :: jsstring
  email :: jsstring
  role :: jsstring

record SignPayload = UserClaims +
  type :: "jsstring option"
  jti :: "jsstring option"

record JWTPayload = SignPayload +
  iat :: int
  exp :: int

text \<open>
  What the engine takes from the platform and the model does not fix:
  HMAC-SHA256 (\<^verbatim>\<open>crypto.subtle.sign\<close> with an imported key; the key first, then the
  message), \<^verbatim>\<open>JSON.stringify\<close> of a payload, and \<^verbatim>\<open>JSON.parse\<close> of a text, whose
  result is taken at its declared type \<^verbatim>\<open>JWTPayload\<close> (\<open>None\<close>: it throws; the source
  does not validate what it parses). The properties below hold for every such
  platform, under the hypotheses they state.
\<close>

record Platform =
  hmacSha256 :: "bytes \<Rightarrow> bytes \<Rightarrow> bytes"
  jsonStringify :: "JWTPayload \<Rightarrow> jsstring"
  jsonParse :: "jsstring \<Rightarrow> JWTPayload option"

record JWT =
  secret :: jsstring

text \<open>
  \<^verbatim>\<open>
  private async sign256(data: string): Promise<string> {
    const key = await crypto.subtle.importKey('raw', encoder.encode(this.secret), ...);
    const signature = await crypto.subtle.sign('HMAC', key, encoder.encode(data));
    const base64 = btoa(String.fromCharCode(...signatureArray));
    return base64 with every '+' replaced by '-', every '/' by '_', every '=' removed;
  }
  \<close>
\<close>

definition sign256 :: "Platform \<Rightarrow> JWT \<Rightarrow> jsstring \<Rightarrow> jsstring" where
  "sign256 P this data =
     (let signature = hmacSha256 P (TextEncoder_encode (secret this)) (TextEncoder_encode data);
          base64 = btoa signature
      in replaceAll 61 [] (replaceAll 47 [95] (replaceAll 43 [45] base64)))"

text \<open>
  \<^verbatim>\<open>JSON.stringify({ alg: 'HS256', typ: 'JWT' })\<close>, the same text on every call.
\<close>

definition headerJson :: jsstring where
  "headerJson = str ''{\"alg\":\"HS256\",\"typ\":\"JWT\"}''"

text \<open>
  \<^verbatim>\<open>
  async sign(payload, expiresIn = 7 * 24 * 60 * 60): Promise<string> {
    const now = Math.floor(Date.now() / 1000);
    const fullPayload = { ...payload, iat: now, exp: now + expiresIn };
    const encodedHeader = this.base64UrlEncode(JSON.stringify(header));
    const encodedPayload = this.base64UrlEncode(JSON.stringify(fullPayload));
    const signature = await this.sign256(`${encodedHeader}.${encodedPayload}`);
    return `${encodedHeader}.${encodedPayload}.${signature}`;
  }
  \<close>
  \<open>clock\<close> is the value of \<^verbatim>\<open>Date.now()\<close>, in milliseconds; an operation reads
  the clock once. A default argument is passed by the caller.
\<close>

definition sign :: "Platform \<Rightarrow> JWT \<Rightarrow> int \<Rightarrow> SignPayload \<Rightarrow> int \<Rightarrow> jsstring" where
  "sign P this clock payload expiresIn =
     (let now = clock div 1000;
          fullPayload = \<lparr>userId = userId payload, email = email payload, role = role payload,
                         type = type payload, jti = jti payload,
                         iat = now, exp = now + expiresIn\<rparr>;
          encodedHeader = base64UrlEncode headerJson;
          encodedPayload = base64UrlEncode (jsonStringify P fullPayload);
          signature = sign256 P this (encodedHeader @ str ''.'' @ encodedPayload)
      in encodedHeader @ str ''.'' @ encodedPayload @ str ''.'' @ signature)"

text \<open>
  \<^verbatim>\<open>
  signAccessToken(payload, expiresIn = 15 * 60)
    { return this.sign({ ...payload, type: 'access' }, expiresIn); }
  signRefreshToken(payload, expiresIn = 7 * 24 * 60 * 60)
    { const jti = crypto.randomUUID();
      return this.sign({ ...payload, type: 'refresh', jti }, expiresIn); }
  \<close>
  The random identifier is an argument.
\<close>

definition signAccessToken :: "Platform \<Rightarrow> JWT \<Rightarrow> int \<Rightarrow> SignPayload \<Rightarrow> int \<Rightarrow> jsstring" where
  "signAccessToken P this clock payload expiresIn =
     sign P this clock (payload\<lparr>type := Some (str ''access'')\<rparr>) expiresIn"

definition signRefreshToken ::
  "Platform \<Rightarrow> JWT \<Rightarrow> int \<Rightarrow> jsstring \<Rightarrow> SignPayload \<Rightarrow> int \<Rightarrow> jsstring" where
  "signRefreshToken P this clock randomUUID payload expiresIn =
     (let jti = randomUUID
      in sign P this clock (payload\<lparr>type := Some (str ''refresh''), jti := Some jti\<rparr>) expiresIn)"

text \<open>
  \<^verbatim>\<open>
  async verify(token: string): Promise<JWTPayload> {
    const parts = token.split('.');
    if (parts.length !== 3) { throw new ApiError('Invalid token format', 401); }
    const [encodedHeader, encodedPayload, signature] = parts;
    const expectedSignature = await this.sign256(`${encodedHeader}.${encodedPayload}`);
    if (signature !== expectedSignature) { throw new ApiError('Invalid token signature', 401); }
    const payload: JWTPayload = JSON.parse(this.base64UrlDecode(encodedPayload));
    const now = Math.floor(Date.now() / 1000);
    if (payload.exp < now) { throw new ApiError('Token has expired', 401); }
    return payload;
  }
  \<close>
\<close>

definition verify :: "Platform \<Rightarrow> JWT \<Rightarrow> int \<Rightarrow> jsstring \<Rightarrow> error + JWTPayload" where
  "verify P this clock token =
     (let parts = split token 46 in
      if length parts \<noteq> 3 then Inl (ApiError ''Invalid token format'' 401)
      else
        let encodedHeader = parts ! 0; encodedPayload = parts ! 1; signature = parts ! 2;
            expectedSignature = sign256 P this (encodedHeader @ str ''.'' @ encodedPayload)
        in if signature \<noteq> expectedSignature then Inl (ApiError ''Invalid token signature'' 401)
           else
             case base64UrlDecode encodedPayload of
               Inl e \<Rightarrow> Inl e
             | Inr json \<Rightarrow>
                 (case jsonParse P json of
                    None \<Rightarrow> Inl SyntaxError
                  | Some payload \<Rightarrow>
                      let now = clock div 1000 in
                      if exp payload < now then Inl (ApiError ''Token has expired'' 401)
                      else Inr payload))"

text \<open>
  \<^verbatim>\<open>
  async verifyAccessToken(token: string): Promise<JWTPayload> {
    const payload = await this.verify(token);
    if (payload.type !== 'access') { throw new ApiError('Invalid access token', 401); }
    return payload;
  }
  \<close>
  and \<^verbatim>\<open>verifyRefreshToken\<close> alike, with \<^verbatim>\<open>'refresh'\<close> and \<^verbatim>\<open>'Invalid refresh token'\<close>.
\<close>

definition verifyAccessToken :: "Platform \<Rightarrow> JWT \<Rightarrow> int \<Rightarrow> jsstring \<Rightarrow> error + JWTPayload" where
  "verifyAccessToken P this clock token =
     (case verify P this clock token of
        Inl e \<Rightarrow> Inl e
      | Inr payload \<Rightarrow>
          if type payload \<noteq> Some (str ''access'') then Inl (ApiError ''Invalid access token'' 401)
          else Inr payload)"

definition verifyRefreshToken :: "Platform \<Rightarrow> JWT \<Rightarrow> int \<Rightarrow> jsstring \<Rightarrow> error + JWTPayload" where
  "verifyRefreshToken P this clock token =
     (case verify P this clock token of
        Inl e \<Rightarrow> Inl e
      | Inr payload \<Rightarrow>
          if type payload \<noteq> Some (str ''refresh'') then Inl (ApiError ''Invalid refresh token'' 401)
          else Inr payload)"

text \<open>
  The fields of \<^verbatim>\<open>User\<close> the engine and the routes read.
  \<^verbatim>\<open>
  async generateUserToken(user: User): Promise<string> {
    return this.sign({ userId: user.id, email: user.email, role: user.role });
  }
  \<close>
\<close>

record User =
  User_id :: jsstring
  User_email :: jsstring
  User_role :: jsstring
  is_active :: bool

definition generateUserToken :: "Platform \<Rightarrow> JWT \<Rightarrow> int \<Rightarrow> User \<Rightarrow> jsstring" where
  "generateUserToken P this clock user =
     sign P this clock
       \<lparr>userId = User_id user, email = User_email user, role = User_role user,
        type = None, jti = None\<rparr>
       (7 * 24 * 60 * 60)"

section \<open>Refresh-token registry (class \<^verbatim>\<open>TokenManager\<close>)\<close>

text \<open>
  \<^verbatim>\<open>private refreshTokenStore: Map<string, { userId: string; expiresAt: number }>\<close>.
  A \<^verbatim>\<open>Map\<close> keeps its entries in insertion order, one per key: it is an association
  list. \<^verbatim>\<open>set\<close> replaces the value of a key in place or appends an entry,
  \<^verbatim>\<open>delete\<close> removes the key.
\<close>

datatype TokenData = TokenData (tokenUserId: jsstring) (expiresAt: int)

type_synonym TokenStore = "(jsstring \<times> TokenData) list"

definition Map_has :: "TokenStore \<Rightarrow> jsstring \<Rightarrow> bool" where
  "Map_has m k = (map_of m k \<noteq> None)"

definition Map_get :: "TokenStore \<Rightarrow> jsstring \<Rightarrow> TokenData option" where
  "Map_get m k = map_of m k"

fun Map_set :: "TokenStore \<Rightarrow> jsstring \<Rightarrow> TokenData \<Rightarrow> TokenStore" where
  "Map_set [] k v = [(k, v)]"
| "Map_set ((k', v') # m) k v = (if k' = k then (k, v) # m else (k', v') # Map_set m k v)"

definition Map_delete :: "TokenStore \<Rightarrow> jsstring \<Rightarrow> TokenStore" where
  "Map_delete m k = filter (\<lambda>(k', v). k' \<noteq> k) m"

record TokenManager =
  jwt :: JWT
  refreshTokenStore :: TokenStore

text \<open>The constructor.\<close>

definition newTokenManager :: "jsstring \<Rightarrow> TokenManager" where
  "newTokenManager s = \<lparr>jwt = \<lparr>secret = s\<rparr>, refreshTokenStore = []\<rparr>"

text \<open>The results \<^verbatim>\<open>{ accessToken, refreshToken, expiresIn }\<close> and \<^verbatim>\<open>{ accessToken, expiresIn }\<close>.\<close>

record TokenPair =
  pairAccessToken :: jsstring
  pairRefreshToken :: jsstring
  pairExpiresIn :: int

record AccessGrant =
  grantAccessToken :: jsstring
  grantExpiresIn :: int

text \<open>
  \<^verbatim>\<open>
  async generateTokenPair(user) {
    const accessTokenExpiresIn = 15 * 60;
    const refreshTokenExpiresIn = 7 * 24 * 60 * 60;
    const accessToken = await this.jwt.signAccessToken(user, accessTokenExpiresIn);
    const refreshToken = await this.jwt.signRefreshToken(user, refreshTokenExpiresIn);
    const refreshPayload = await this.jwt.verifyRefreshToken(refreshToken);
    if (refreshPayload.jti) {
      this.refreshTokenStore.set(refreshPayload.jti,
        { userId: user.userId, expiresAt: refreshPayload.exp * 1000 });
    }
    return { accessToken, refreshToken, expiresIn: accessTokenExpiresIn };
  }
  \<close>
  A method returns its result, or the error it throws, and the object after the call.
\<close>

definition generateTokenPair ::
  "Platform \<Rightarrow> TokenManager \<Rightarrow> int \<Rightarrow> jsstring \<Rightarrow> UserClaims
     \<Rightarrow> (error + TokenPair) \<times> TokenManager" where
  "generateTokenPair P this clock randomUUID user =
     (let accessTokenExpiresIn = 15 * 60;
          refreshTokenExpiresIn = 7 * 24 * 60 * 60;
          payload = \<lparr>userId = userId user, email = email user, role = role user,
                     type = None, jti = None\<rparr>;
          accessToken = signAccessToken P (jwt this) clock payload accessTokenExpiresIn;
          refreshToken = signRefreshToken P (jwt this) clock randomUUID payload refreshTokenExpiresIn
      in case verifyRefreshToken P (jwt this) clock refreshToken of
           Inl e \<Rightarrow> (Inl e, this)
         | Inr refreshPayload \<Rightarrow>
             (Inr \<lparr>pairAccessToken = accessToken, pairRefreshToken = refreshToken,
                   pairExpiresIn = accessTokenExpiresIn\<rparr>,
              case jti refreshPayload of
                None \<Rightarrow> this
              | Some j \<Rightarrow>
                  if j = [] then this
                  else this\<lparr>refreshTokenStore :=
                         Map_set (refreshTokenStore this) j
                           (TokenData (userId user) (exp refreshPayload * 1000))\<rparr>))"

text \<open>
  \<^verbatim>\<open>
  async refreshAccessToken(refreshToken: string) {
    try {
      const refreshPayload = await this.jwt.verifyRefreshToken(refreshToken);
      if (!refreshPayload.jti || !this.refreshTokenStore.has(refreshPayload.jti)) {
        throw new ApiError('Invalid refresh token', 401);
      }
      const storedToken = this.refreshTokenStore.get(refreshPayload.jti)!;
      if (Date.now() > storedToken.expiresAt) {
        this.refreshTokenStore.delete(refreshPayload.jti);
        throw new ApiError('Refresh token expired', 401);
      }
      const accessTokenExpiresIn = 15 * 60;
      const accessToken = await this.jwt.signAccessToken({
        userId: refreshPayload.userId, email: refreshPayload.email, role: refreshPayload.role,
      }, accessTokenExpiresIn);
      return { accessToken, expiresIn: accessTokenExpiresIn };
    } catch (error) {
      throw new ApiError('Invalid refresh token', 401);
    }
  }
  \<close>
  \<open>refreshAccessToken_try\<close> is the body of the \<^verbatim>\<open>try\<close> block, \<open>refreshAccessToken\<close> the
  method with its \<^verbatim>\<open>catch\<close>: whatever is thrown inside is replaced by \<open>Invalid refresh
  token\<close>, and what the block did to the registry stays done.
\<close>

definition refreshAccessToken_try ::
  "Platform \<Rightarrow> TokenManager \<Rightarrow> int \<Rightarrow> jsstring \<Rightarrow> (error + AccessGrant) \<times> TokenManager" where
  "refreshAccessToken_try P this clock refreshToken =
     (case verifyRefreshToken P (jwt this) clock refreshToken of
        Inl e \<Rightarrow> (Inl e, this)
      | Inr refreshPayload \<Rightarrow>
          (case jti refreshPayload of
             None \<Rightarrow> (Inl (ApiError ''Invalid refresh token'' 401), this)
           | Some j \<Rightarrow>
               if j = [] \<or> \<not> Map_has (refreshTokenStore this) j
               then (Inl (ApiError ''Invalid refresh token'' 401), this)
               else
                 (case Map_get (refreshTokenStore this) j of
                    None \<Rightarrow> (Inl (ApiError ''Invalid refresh token'' 401), this)
                  | Some storedToken \<Rightarrow>
                      if clock > expiresAt storedToken
                      then (Inl (ApiError ''Refresh token expired'' 401),
                            this\<lparr>refreshTokenStore := Map_delete (refreshTokenStore this) j\<rparr>)
                      else
                        let accessTokenExpiresIn = 15 * 60;
                            accessToken = signAccessToken P (jwt this) clock
                              \<lparr>userId = userId refreshPayload, email = email refreshPayload,
                               role = role refreshPayload, type = None, jti = None\<rparr>
                              accessTokenExpiresIn
                        in (Inr \<lparr>grantAccessToken = accessToken,
                                 grantExpiresIn = accessTokenExpiresIn\<rparr>,
                            this))))"

definition refreshAccessToken ::
  "Platform \<Rightarrow> TokenManager \<Rightarrow> int \<Rightarrow> jsstring \<Rightarrow> (error + AccessGrant) \<times> TokenManager" where
  "refreshAccessToken P this clock refreshToken =
     (case refreshAccessToken_try P this clock refreshToken of
        (Inl error, this') \<Rightarrow> (Inl (ApiError ''Invalid refresh token'' 401), this')
      | (Inr result, this') \<Rightarrow> (Inr result, this'))"

text \<open>
  \<^verbatim>\<open>
  async revokeRefreshToken(refreshToken: string): Promise<void> {
    try {
      const refreshPayload = await this.jwt.verifyRefreshToken(refreshToken);
      if (refreshPayload.jti) { this.refreshTokenStore.delete(refreshPayload.jti); }
    } catch { }
  }
  \<close>
\<close>

definition revokeRefreshToken :: "Platform \<Rightarrow> TokenManager \<Rightarrow> int \<Rightarrow> jsstring \<Rightarrow> TokenManager" where
  "revokeRefreshToken P this clock refreshToken =
     (case verifyRefreshToken P (jwt this) clock refreshToken of
        Inl e \<Rightarrow> this
      | Inr refreshPayload \<Rightarrow>
          (case jti refreshPayload of
             None \<Rightarrow> this
           | Some j \<Rightarrow>
               if j = [] then this
               else this\<lparr>refreshTokenStore := Map_delete (refreshTokenStore this) j\<rparr>))"

text \<open>
  \<^verbatim>\<open>
  revokeAllUserTokens(userId: string): void {
    for (const [jti, tokenData] of this.refreshTokenStore.entries()) {
      if (tokenData.userId === userId) { this.refreshTokenStore.delete(jti); }
    }
  }
  \<close>
  The loop visits every entry the map had when it started (deleting the entry being
  visited does not disturb the iteration) and deletes from the map as it goes;
  \<^verbatim>\<open>cleanupExpiredTokens\<close> is the same loop with the test \<^verbatim>\<open>now > tokenData.expiresAt\<close>.
\<close>

definition revokeAllUserTokens :: "TokenManager \<Rightarrow> jsstring \<Rightarrow> TokenManager" where
  "revokeAllUserTokens this uid =
     this\<lparr>refreshTokenStore :=
       fold (\<lambda>(jti, tokenData) store.
               if tokenUserId tokenData = uid then Map_delete store jti else store)
         (refreshTokenStore this) (refreshTokenStore this)\<rparr>"

definition cleanupExpiredTokens :: "TokenManager \<Rightarrow> int \<Rightarrow> TokenManager" where
  "cleanupExpiredTokens this clock =
     (let now = clock in
      this\<lparr>refreshTokenStore :=
        fold (\<lambda>(jti, tokenData) store.
                if now > expiresAt tokenData then Map_delete store jti else store)
          (refreshTokenStore this) (refreshTokenStore this)\<rparr>)"

section \<open>The refresh route (\<^verbatim>\<open>refreshToken\<close> in \<^verbatim>\<open>routes/auth.ts\<close>)\<close>

text \<open>
  \<^verbatim>\<open>
  const { refreshToken: oldToken } = await parseJSON(request);
  if (!oldToken) { throw new ApiError('Refresh token is required', 400); }
  const jwt = new JWT(env.JWT_SECRET);
  const payload = await jwt.verify(oldToken);
  const user = await dbService.getUserById(payload.userId);
  if (!user || !user.is_active) { throw new ApiError('User not found or inactive', 401); }
  const newToken = await jwt.generateUserToken(user);
  \<close>
  The user directory is the parameter \<open>getUserById\<close>; the result is the new token or
  the error the handler reports.
\<close>

definition refreshToken ::
  "Platform \<Rightarrow> (jsstring \<Rightarrow> User option) \<Rightarrow> jsstring \<Rightarrow> int \<Rightarrow> jsstring option
     \<Rightarrow> error + jsstring" where
  "refreshToken P getUserById JWT_SECRET clock oldToken =
     (case oldToken of
        None \<Rightarrow> Inl (ApiError ''Refresh token is required'' 400)
      | Some old \<Rightarrow>
          if old = [] then Inl (ApiError ''Refresh token is required'' 400)
          else
            let jwt = \<lparr>secret = JWT_SECRET\<rparr> in
            case verify P jwt clock old of
              Inl e \<Rightarrow> Inl e
            | Inr payload \<Rightarrow>
                (case getUserById (userId payload) of
                   None \<Rightarrow> Inl (ApiError ''User not found or inactive'' 401)
                 | Some user \<Rightarrow>
                     if \<not> is_active user then Inl (ApiError ''User not found or inactive'' 401)
                     else Inr (generateUserToken P jwt clock user)))"

section \<open>The process-wide token manager (\<^verbatim>\<open>getTokenManager\<close>)\<close>

text \<open>
  \<^verbatim>\<open>
  let globalTokenManager: TokenManager | null = null;
  export function getTokenManager(secret: string): TokenManager {
    if (!globalTokenManager) { globalTokenManager = new TokenManager(secret); }
    return globalTokenManager;
  }
  \<close>
  The claim about it is about object identity, so token managers live in a store of
  objects: a reference is an index into \<open>heap\<close>, \<^verbatim>\<open>new\<close> appends an object, and the
  module variable holds \<open>None\<close> (\<^verbatim>\<open>null\<close>) or a reference.
\<close>

record Module =
  heap :: "TokenManager list"
  globalTokenManager :: "nat option"

definition initialModule :: Module where
  "initialModule = \<lparr>heap = [], globalTokenManager = None\<rparr>"

definition getTokenManager :: "Module \<Rightarrow> jsstring \<Rightarrow> nat \<times> Module" where
  "getTokenManager m s =
     (case globalTokenManager m of
        None \<Rightarrow>
          (length (heap m),
           m\<lparr>heap := heap m @ [newTokenManager s],
              globalTokenManager := Some (length (heap m))\<rparr>)
      | Some ref \<Rightarrow> (ref, m))"

text \<open>
  What the rest of the program can do with the module between two calls: call the
  accessor, or call a method of the token manager a reference points to. The module
  variable is not exported and the fields of the classes are private, so nothing else
  reaches them.
\<close>

datatype Call =
    GetTokenManager jsstring
  | GenerateTokenPair nat int jsstring UserClaims
  | RefreshAccessToken nat int jsstring
  | RevokeRefreshToken nat int jsstring
  | RevokeAllUserTokens nat jsstring
  | CleanupExpiredTokens nat int

definition onObject :: "nat \<Rightarrow> (TokenManager \<Rightarrow> TokenManager) \<Rightarrow> Module \<Rightarrow> Module" where
  "onObject ref f m =
     (if ref < length (heap m) then m\<lparr>heap := (heap m)[ref := f (heap m ! ref)]\<rparr> else m)"

fun step :: "Platform \<Rightarrow> Call \<Rightarrow> Module \<Rightarrow> Module" where
  "step P (GetTokenManager s) m = snd (getTokenManager m s)"
| "step P (GenerateTokenPair ref clock uuid user) m =
     onObject ref (\<lambda>this. snd (generateTokenPair P this clock uuid user)) m"
| "step P (RefreshAccessToken ref clock token) m =
     onObject ref (\<lambda>this. snd (refreshAccessToken P this clock token)) m"
| "step P (RevokeRefreshToken ref clock token) m =
     onObject ref (\<lambda>this. revokeRefreshToken P this clock token) m"
| "step P (RevokeAllUserTokens ref uid) m =
     onObject ref (\<lambda>this. revokeAllUserTokens this uid) m"
| "step P (CleanupExpiredTokens ref clock) m =
     onObject ref (\<lambda>this. cleanupExpiredTokens this clock) m"

section \<open>OAuth handshake state (\<^verbatim>\<open>routes/auth.ts\<close>, \<^verbatim>\<open>routes/nextauth-compat\<close>)\<close>

text \<open>
  The key-value store \<^verbatim>\<open>env.CACHE\<close> with per-key expiry: a key holds a value and the
  time (in seconds) at which it expires; \<^verbatim>\<open>get\<close> gives \<open>None\<close> (\<^verbatim>\<open>null\<close>) for a key
  that is absent or has expired.
\<close>

type_synonym KVNamespace = "jsstring \<Rightarrow> (jsstring \<times> int) option"

definition KV_put :: "KVNamespace \<Rightarrow> int \<Rightarrow> jsstring \<Rightarrow> jsstring \<Rightarrow> int \<Rightarrow> KVNamespace" where
  "KV_put kv clock key val expirationTtl = kv(key \<mapsto> (val, clock div 1000 + expirationTtl))"

definition KV_get :: "KVNamespace \<Rightarrow> int \<Rightarrow> jsstring \<Rightarrow> jsstring option" where
  "KV_get kv clock key =
     (case kv key of
        None \<Rightarrow> None
      | Some (val, expiration) \<Rightarrow> if clock div 1000 < expiration then Some val else None)"

definition KV_delete :: "KVNamespace \<Rightarrow> jsstring \<Rightarrow> KVNamespace" where
  "KV_delete kv key = kv(key := None)"

text \<open>
  Issuing a state (\<^verbatim>\<open>getGitHubAuthUrl\<close>, \<^verbatim>\<open>signInGitHub\<close>):
  \<^verbatim>\<open>
  const state = crypto.randomUUID();
  await env.CACHE.put(`oauth_state_${state}`, 'valid', { expirationTtl: 600 });
  \<close>
\<close>

definition issueState :: "KVNamespace \<Rightarrow> int \<Rightarrow> jsstring \<Rightarrow> jsstring \<times> KVNamespace" where
  "issueState cache clock randomUUID =
     (let state = randomUUID
      in (state, KV_put cache clock (str ''oauth_state_'' @ state) (str ''valid'') 600))"

text \<open>
  Consuming a state, as \<^verbatim>\<open>callbackGitHub\<close> does it:
  \<^verbatim>\<open>
  const storedState = await env.CACHE.get(`oauth_state_${state}`);
  if (!storedState) { return <redirect to /auth/error?error=invalid_state> }
  await env.CACHE.delete(`oauth_state_${state}`);
  \<close>
\<close>

definition consumeState :: "KVNamespace \<Rightarrow> int \<Rightarrow> jsstring \<Rightarrow> bool \<times> KVNamespace" where
  "consumeState cache clock state =
     (let storedState = KV_get cache clock (str ''oauth_state_'' @ state)
      in if \<not> truthy storedState then (False, cache)
         else (True, KV_delete cache (str ''oauth_state_'' @ state)))"

text \<open>
  The query parameters of a callback request, and what a callback does: it aborts the
  login with an error, or it issues a token. Exchanging the code with the identity
  provider and storing the user are the parameter \<open>authenticateUser\<close> (\<open>None\<close>: one of
  them throws).
\<close>

record SearchParams =
  code_param :: "jsstring option"
  state_param :: "jsstring option"
  error_param :: "jsstring option"

datatype Outcome = LoginAborted jsstring | TokenIssued jsstring

text \<open>
  \<^verbatim>\<open>callbackGitHub\<close> (route \<^verbatim>\<open>GET /api/auth/callback/github\<close>):
  \<^verbatim>\<open>
  if (error) { return <redirect ?error=error> }
  if (!code) { return <redirect ?error=missing_code> }
  if (state) { ... the consumption above ... }
  const { user: githubUser, role } = await githubService.authenticateUser(code, adminEmails);
  const user = await dbService.upsertUser({...});
  const token = await jwt.generateUserToken(user);
  \<close>
  and any exception gives the redirect \<^verbatim>\<open>?error=callback_error\<close>.
\<close>

definition callbackGitHub ::
  "Platform \<Rightarrow> (jsstring \<Rightarrow> User option) \<Rightarrow> jsstring \<Rightarrow> KVNamespace \<Rightarrow> int \<Rightarrow> SearchParams
     \<Rightarrow> Outcome \<times> KVNamespace" where
  "callbackGitHub P authenticateUser JWT_SECRET cache clock params =
     (case (code_param params, state_param params, error_param params) of
        (code, state, error) \<Rightarrow>
          if truthy error then (LoginAborted (present error), cache)
          else if \<not> truthy code then (LoginAborted (str ''missing_code''), cache)
          else
            let (valid, cache') =
                  (if truthy state then consumeState cache clock (present state) else (True, cache))
            in if \<not> valid then (LoginAborted (str ''invalid_state''), cache')
               else
                 (case authenticateUser (present code) of
                    None \<Rightarrow> (LoginAborted (str ''callback_error''), cache')
                  | Some user \<Rightarrow>
                      (TokenIssued (generateUserToken P \<lparr>secret = JWT_SECRET\<rparr> clock user),
                       cache')))"

text \<open>
  \<^verbatim>\<open>handleGitHubCallback\<close> (route \<^verbatim>\<open>POST /api/auth/github/callback\<close>):
  \<^verbatim>\<open>
  const code = url.searchParams.get('code');
  // const state = url.searchParams.get('state'); // not used for now
  if (!code) { throw new ApiError('Authorization code is required', 400); }
  ... authenticateUser, upsertUser ...
  const token = await jwt.generateUserToken(user);
  \<close>
  It does not touch \<^verbatim>\<open>env.CACHE\<close>.
\<close>

definition handleGitHubCallback ::
  "Platform \<Rightarrow> (jsstring \<Rightarrow> User option) \<Rightarrow> jsstring \<Rightarrow> int \<Rightarrow> SearchParams \<Rightarrow> Outcome" where
  "handleGitHubCallback P authenticateUser JWT_SECRET clock params =
     (let code = code_param params in
      if \<not> truthy code then LoginAborted (str ''Authorization code is required'')
      else
        (case authenticateUser (present code) of
           None \<Rightarrow> LoginAborted (str ''Authentication failed'')
         | Some user \<Rightarrow> TokenIssued (generateUserToken P \<lparr>secret = JWT_SECRET\<rparr> clock user)))"

chapter \<open>Properties\<close>

section \<open>Notions the statements and proofs use\<close>

text \<open>
  The payload that \<open>sign\<close> serializes for a claims object: the claims with the
  issue time and the expiry added (\<open>fullPayload\<close> in the source).
\<close>

definition fullPayload :: "SignPayload \<Rightarrow> int \<Rightarrow> int \<Rightarrow> JWTPayload" where
  "fullPayload payload clock expiresIn =
     \<lparr>userId = userId payload, email = email payload, role = role payload,
      type = type payload, jti = jti payload,
      iat = clock div 1000, exp = clock div 1000 + expiresIn\<rparr>"

text \<open>
  What the proofs about issued tokens need of the platform's JSON functions, for one
  payload \<open>p\<close>: \<^verbatim>\<open>JSON.parse(JSON.stringify(p))\<close> gives \<open>p\<close> back, and the text
  \<^verbatim>\<open>JSON.stringify(p)\<close> is a well-formed string that does not start with a byte order
  mark (it starts with a brace, and \<^verbatim>\<open>JSON.stringify\<close> escapes lone surrogates).
\<close>

definition jsonFaithful :: "Platform \<Rightarrow> JWTPayload \<Rightarrow> bool" where
  "jsonFaithful P p =
     (isWellFormed (jsonStringify P p) \<and> \<not> startsWith (jsonStringify P p) [0xFEFF]
      \<and> jsonParse P (jsonStringify P p) = Some p)"

text \<open>
  The claims objects of \<open>generateTokenPair\<close> for a user: the payload handed to the
  signing functions, and the payload of the refresh token with its token id.
\<close>

definition claimsOf :: "UserClaims \<Rightarrow> SignPayload" where
  "claimsOf user =
     \<lparr>userId = userId user, email = email user, role = role user, type = None, jti = None\<rparr>"

definition refreshClaims :: "UserClaims \<Rightarrow> jsstring \<Rightarrow> SignPayload" where
  "refreshClaims user j =
     \<lparr>userId = userId user, email = email user, role = role user,
      type = Some (str ''refresh''), jti = Some j\<rparr>"

text \<open>The characters of unpadded URL-safe base64: letters, digits, \<open>-\<close> and \<open>_\<close>.\<close>

definition isUrlSafeChar :: "16 word \<Rightarrow> bool" where
  "isUrlSafeChar c =
     (let n = unat c in
      (65 \<le> n \<and> n \<le> 90) \<or> (97 \<le> n \<and> n \<le> 122) \<or> (48 \<le> n \<and> n \<le> 57)
      \<or> n = 45 \<or> n = 95)"

text \<open>
  For the proof of the round trip: the character codes of the base64 alphabet, the
  output of \<open>btoaGroups\<close> without its padding, the two character substitutions, and the
  Unicode scalar values.
\<close>

definition isBase64Code :: "nat \<Rightarrow> bool" where
  "isBase64Code c = (\<exists>i<64. c = base64Code i)"

definition bodyOf :: "nat list \<Rightarrow> nat list" where
  "bodyOf xs = filter (\<lambda>c. c \<noteq> 61) (btoaGroups xs)"

definition urlChar :: "16 word \<Rightarrow> 16 word" where
  "urlChar x = (let y = (if x = 43 then 45 else x) in if y = 47 then 95 else y)"

definition stdChar :: "16 word \<Rightarrow> 16 word" where
  "stdChar x = (let y = (if x = 45 then 43 else x) in if y = 95 then 47 else y)"

definition isScalarValue :: "nat \<Rightarrow> bool" where
  "isScalarValue cp = (cp < 0x110000 \<and> \<not> (0xD800 \<le> cp \<and> cp \<le> 0xDFFF))"

text \<open>
  The module variable refers to a token manager in the store that holds the secret
  \<open>s\<close>.
\<close>

definition keyedWith :: "Module \<Rightarrow> nat \<Rightarrow> jsstring \<Rightarrow> bool" where
  "keyedWith m ref s =
     (globalTokenManager m = Some ref \<and> ref < length (heap m) \<and> secret (jwt (heap m ! ref)) = s)"

section \<open>Stand-in platforms for concrete instances\<close>

text \<open>
  A stand-in platform for concrete instances: the MAC of a message is the key followed
  by the message, every payload is serialized as \<open>{}\<close>, and parsing gives a fixed
  result (\<open>None\<close>: \<^verbatim>\<open>JSON.parse\<close> throws).
\<close>

definition stubPlatform :: "JWTPayload option \<Rightarrow> Platform" where
  "stubPlatform parsed =
     \<lparr>hmacSha256 = (\<lambda>key data. key @ data),
      jsonStringify = (\<lambda>p. str ''{}''),
      jsonParse = (\<lambda>s. parsed)\<rparr>"

text \<open>
  A second stand-in platform for concrete instances with several tokens: the JSON
  functions are a finite table of texts and payloads.
\<close>

definition tablePlatform :: "(jsstring \<times> JWTPayload) list \<Rightarrow> Platform" where
  "tablePlatform table =
     \<lparr>hmacSha256 = (\<lambda>key data. key @ data),
      jsonStringify = (\<lambda>p. case find (\<lambda>(k, q). q = p) table of
                               Some (k, q) \<Rightarrow> k
                             | None \<Rightarrow> str ''{}''),
      jsonParse = map_of table\<rparr>"

section \<open>Properties of the authorization policy and of bearer extraction\<close>


lemma roles_not_inherited:
  "str ''user'' \<notin> set objectPrototypeKeys"
  "str ''collaborator'' \<notin> set objectPrototypeKeys"
  "str ''admin'' \<notin> set objectPrototypeKeys"
  by (simp_all add: objectPrototypeKeys_def str_def)





section \<open>The codec round-trips\<close>

subsection \<open>Base64\<close>

lemma divmod_recompose:
  fixes x y n :: nat
  assumes "y < n"
  shows "(x * n + y) div n = x" and "(x * n + y) mod n = y"
  using assms by simp_all

lemma lin_bounds:
  fixes x y :: nat
  shows "x < 4 \<Longrightarrow> y < 16 \<Longrightarrow> x * 16 + y < 64"
    and "x < 16 \<Longrightarrow> y < 4 \<Longrightarrow> x * 4 + y < 64"
    and "x < 4 \<Longrightarrow> x * 16 < 64"
    and "x < 16 \<Longrightarrow> x * 4 < 64"
  by simp_all

lemma byte_div:
  fixes a :: nat
  assumes "a < 256"
  shows "a div 4 < 64" "a div 16 < 16" "a div 64 < 4"
  using assms by (simp_all add: less_mult_imp_div_less)

lemma sextet_bounds:
  fixes a b c :: nat
  shows "a < 256 \<Longrightarrow> a div 4 < 64"
    and "b < 256 \<Longrightarrow> (a mod 4) * 16 + b div 16 < 64"
    and "c < 256 \<Longrightarrow> (b mod 16) * 4 + c div 64 < 64"
    and "c mod 64 < 64"
    and "(a mod 4) * 16 < 64"
    and "(b mod 16) * 4 < 64"
  by (simp_all add: byte_div lin_bounds)

lemma group3:
  fixes a b c :: nat
  shows "b < 256 \<Longrightarrow> (a div 4) * 4 + ((a mod 4) * 16 + b div 16) div 16 = a"
    and "b < 256 \<Longrightarrow> c < 256 \<Longrightarrow>
         (((a mod 4) * 16 + b div 16) mod 16) * 16 + ((b mod 16) * 4 + c div 64) div 4 = b"
    and "c < 256 \<Longrightarrow> (((b mod 16) * 4 + c div 64) mod 4) * 64 + c mod 64 = c"
  by (simp_all add: divmod_recompose byte_div)

lemma group2:
  fixes a b :: nat
  shows "b < 256 \<Longrightarrow> (((a mod 4) * 16 + b div 16) mod 16) * 16 + ((b mod 16) * 4) div 4 = b"
    and "(a div 4) * 4 + ((a mod 4) * 16) div 16 = a"
  by (simp_all add: divmod_recompose byte_div)

lemma unat16_small: "n < 65536 \<Longrightarrow> unat (of_nat n :: 16 word) = n"
  by (simp add: unat_of_nat)

lemma unat8_small: "n < 256 \<Longrightarrow> unat (of_nat n :: 8 word) = n"
  by (simp add: unat_of_nat)

lemma base64Index_Code: "i < 64 \<Longrightarrow> base64Index (base64Code i) = Some i"
  unfolding base64Index_def base64Code_def by auto

lemma base64Code_bound: "i < 64 \<Longrightarrow> base64Code i < 128"
  unfolding base64Code_def by auto

lemma base64Code_not_special:
  assumes "i < 64"
  shows "base64Code i \<noteq> 61" "base64Code i \<noteq> 45" "base64Code i \<noteq> 95"
    "base64Code i \<noteq> 9" "base64Code i \<noteq> 10" "base64Code i \<noteq> 12"
    "base64Code i \<noteq> 13" "base64Code i \<noteq> 32"
  using assms unfolding base64Code_def by auto

lemma replaceAll_single: "replaceAll c [r] s = map (\<lambda>x. if x = c then r else x) s"
  by (induction s) (simp_all add: replaceAll_def)

lemma replaceAll_empty: "replaceAll c [] s = filter (\<lambda>x. x \<noteq> c) s"
  by (induction s) (simp_all add: replaceAll_def)

lemma isBase64Code_I: "i < 64 \<Longrightarrow> isBase64Code (base64Code i)"
  by (auto simp: isBase64Code_def)

lemma isBase64Code_not_pad: "isBase64Code c \<Longrightarrow> c \<noteq> 61"
  by (auto simp: isBase64Code_def base64Code_not_special)

text \<open>The shape of the output of btoa: groups of four alphabet characters, then padding.\<close>

lemma btoaGroups_shape:
  assumes "\<forall>x\<in>set xs. x < 256"
  shows "btoaGroups xs = bodyOf xs @ replicate ((4 - length (bodyOf xs) mod 4) mod 4) 61
       \<and> length (bodyOf xs) mod 4 \<noteq> 1
       \<and> (\<forall>c\<in>set (bodyOf xs). isBase64Code c)"
  using assms
proof (induction xs rule: btoaGroups.induct)
  case (1 a b c rest)
  then show ?case
    by (simp add: bodyOf_def base64Code_not_special sextet_bounds isBase64Code_I numeral_2_eq_2)
next
  case (2 a b)
  then show ?case
    by (simp add: bodyOf_def base64Code_not_special sextet_bounds isBase64Code_I numeral_2_eq_2)
next
  case (3 a)
  then show ?case
    by (simp add: bodyOf_def base64Code_not_special sextet_bounds isBase64Code_I numeral_2_eq_2)
next
  case 4
  then show ?case by (simp add: bodyOf_def)
qed

lemma atobGroups_bodyOf:
  assumes "\<forall>x\<in>set xs. x < 256"
  shows "atobGroups (map (\<lambda>c. the (base64Index c)) (bodyOf xs)) = xs"
  using assms
proof (induction xs rule: btoaGroups.induct)
  case (1 a b c rest)
  then show ?case
    by (simp add: bodyOf_def base64Code_not_special sextet_bounds base64Index_Code byte_div)
next
  case (2 a b)
  then show ?case
    by (simp add: bodyOf_def base64Code_not_special sextet_bounds base64Index_Code byte_div)
next
  case (3 a)
  then show ?case
    by (simp add: bodyOf_def base64Code_not_special sextet_bounds base64Index_Code byte_div)
next
  case 4
  then show ?case by (simp add: bodyOf_def)
qed

lemma dropPadding_replicate:
  assumes "k \<le> 2" "\<forall>x\<in>set r. x \<noteq> 61"
  shows "dropPadding (replicate k 61 @ r) = r"
proof -
  consider "k = 0" | "k = 1" | "k = 2" using assms(1) by linarith
  then show ?thesis
  proof cases
    case 1
    with assms(2) show ?thesis by (cases r rule: dropPadding.cases) auto
  next
    case 2
    with assms(2) show ?thesis by (cases r) auto
  next
    case 3
    then show ?thesis by (simp add: numeral_2_eq_2)
  qed
qed

lemma word16_of_code:
  assumes "isBase64Code c"
  shows "unat (of_nat c :: 16 word) = c"
proof -
  from assms have "c < 128" by (auto simp: isBase64Code_def base64Code_bound)
  then show ?thesis by (simp add: unat16_small)
qed

lemma base64_word_props:
  assumes "isBase64Code c" and w: "w = (of_nat c :: 16 word)"
  shows "w \<noteq> 61" "w \<noteq> 45" "w \<noteq> 95" "\<not> isAsciiWhitespace w"
proof -
  have u: "unat w = c" using assms by (simp add: word16_of_code)
  from assms(1) obtain i where i: "i < 64" "c = base64Code i"
    by (auto simp: isBase64Code_def)
  have "unat w \<noteq> 61" "unat w \<noteq> 45" "unat w \<noteq> 95" "unat w \<noteq> 9" "unat w \<noteq> 10"
    "unat w \<noteq> 12" "unat w \<noteq> 13" "unat w \<noteq> 32"
    using i u by (simp_all add: base64Code_not_special)
  then show "w \<noteq> 61" "w \<noteq> 45" "w \<noteq> 95" "\<not> isAsciiWhitespace w"
    by (auto simp: isAsciiWhitespace_def)
qed

lemma url_replace: "replaceAll 47 [95] (replaceAll 43 [45] s) = map urlChar s"
  by (simp add: replaceAll_single urlChar_def Let_def)

lemma std_replace: "replaceAll 95 [47] (replaceAll 45 [43] s) = map stdChar s"
  by (simp add: replaceAll_single stdChar_def Let_def)

lemma urlChar_props:
  assumes "w \<noteq> 61" "w \<noteq> 45" "w \<noteq> 95"
  shows "urlChar w \<noteq> 61" "stdChar (urlChar w) = w"
  using assms by (auto simp: urlChar_def stdChar_def Let_def)

lemma pad_le2:
  fixes n :: nat
  assumes "n mod 4 \<noteq> 1"
  shows "(4 - n mod 4) mod 4 \<le> 2"
proof -
  define m where "m = n mod 4"
  have "m < 4" by (simp add: m_def)
  then consider "m = 0" | "m = 1" | "m = 2" | "m = 3" by linarith
  then show ?thesis using assms unfolding m_def [symmetric] by cases simp_all
qed

lemma pad_total:
  fixes n :: nat
  shows "(n + (4 - n mod 4) mod 4) mod 4 = 0"
proof -
  define m where "m = n mod 4"
  have "m < 4" by (simp add: m_def)
  then consider "m = 0" | "m = 1" | "m = 2" | "m = 3" by linarith
  then have "(m + (4 - m) mod 4) mod 4 = 0" by cases simp_all
  moreover have "(n + (4 - m) mod 4) mod 4 = (n mod 4 + (4 - m) mod 4) mod 4"
    by (simp only: mod_add_left_eq)
  ultimately show ?thesis by (simp only: m_def)
qed

lemma base64_roundtrip:
  fixes data :: bytes
  defines "e \<equiv> replaceAll 61 [] (replaceAll 47 [95] (replaceAll 43 [45] (btoa data)))"
  shows "atob (replaceAll 95 [47] (replaceAll 45 [43]
           (e @ replicate ((4 - length e mod 4) mod 4) 61))) = Inr data"
proof -
  define xs where "xs = map unat data"
  define B where "B = bodyOf xs"
  define k where "k = (4 - length B mod 4) mod 4"
  define W :: jsstring where "W = map of_nat B"
  have bytes: "\<forall>x\<in>set xs. x < 256"
    using unsigned_less [where 'b = 8] by (auto simp: xs_def) 
  note shape = btoaGroups_shape [OF bytes, folded B_def k_def]
  have codes: "\<forall>c\<in>set B. isBase64Code c" using shape by simp
  have k2: "k \<le> 2" using shape pad_le2 unfolding k_def by blast
  have btoa: "btoa data = W @ replicate k 61"
    using shape by (simp add: btoa_def W_def k_def xs_def [symmetric])
  have Wp: "\<forall>w\<in>set W. w \<noteq> 61 \<and> w \<noteq> 45 \<and> w \<noteq> 95 \<and> \<not> isAsciiWhitespace w"
    using codes base64_word_props unfolding W_def by auto
  have e: "e = map urlChar W"
    using Wp unfolding e_def url_replace replaceAll_empty btoa
    by (auto simp: urlChar_props filter_id_conv urlChar_def)
  have len: "length e = length B" by (simp add: e W_def)
  have pad: "(4 - length e mod 4) mod 4 = k" by (simp add: len k_def)
  have inv: "map (\<lambda>w. stdChar (urlChar w)) W = W"
    using Wp by (intro map_idI) (simp add: urlChar_props)
  have restored: "replaceAll 95 [47] (replaceAll 45 [43]
           (e @ replicate ((4 - length e mod 4) mod 4) 61)) = W @ replicate k 61"
  proof -
    have "stdChar 61 = 61" by (simp add: stdChar_def)
    then show ?thesis
      unfolding std_replace pad by (simp add: e inv comp_def)
  qed
  have nows: "filter (\<lambda>c. \<not> isAsciiWhitespace c) (W @ replicate k 61) = W @ replicate k 61"
    using Wp by (auto simp: filter_id_conv isAsciiWhitespace_def)
  have len4: "length (W @ replicate k 61) mod 4 = 0"
    unfolding W_def k_def by (simp add: pad_total)
  have unpad: "removePadding (W @ replicate k 61) = W"
    using dropPadding_replicate [OF k2, of "rev W"] Wp len4
    by (simp add: removePadding_def)
  have lenW: "length W mod 4 \<noteq> 1" using shape by (simp add: W_def)
  have valid: "\<not> list_ex (\<lambda>c. base64Index (unat c) = None) W"
    using codes unfolding W_def
    by (auto simp: list_ex_iff word16_of_code isBase64Code_def base64Index_Code)
  have idx: "map (\<lambda>c. the (base64Index (unat c))) W = map (\<lambda>c. the (base64Index c)) B"
    using codes unfolding W_def by (simp add: word16_of_code)
  have dec: "atobGroups (map (\<lambda>c. the (base64Index (unat c))) W) = xs"
    unfolding idx B_def by (rule atobGroups_bodyOf [OF bytes])
  have "atob (W @ replicate k 61) = Inr (map of_nat xs)"
    unfolding atob_def nows unpad Let_def using lenW valid dec by simp
  also have "map of_nat xs = data" by (simp add: xs_def comp_def)
  finally show ?thesis unfolding restored .
qed

subsection \<open>UTF-8 and UTF-16\<close>

lemma mod_offset_gen:
  fixes q n k :: nat
  shows "q < n \<Longrightarrow> (k * n + q) mod n = q"
  by simp

lemma mod_offsets:
  fixes q :: nat
  shows "q < 32 \<Longrightarrow> (192 + q) mod 32 = q"
    and "q < 16 \<Longrightarrow> (224 + q) mod 16 = q"
    and "q < 8 \<Longrightarrow> (240 + q) mod 8 = q"
    and "q < 64 \<Longrightarrow> (128 + q) mod 64 = q"
  using mod_offset_gen [of q 32 6] mod_offset_gen [of q 16 14] mod_offset_gen [of q 8 30]
    mod_offset_gen [of q 64 2]
  by simp_all

lemma digits_gen:
  fixes x m n :: nat
  shows "x div (m * n) * (m * n) + (x div m mod n) * m + x mod m = x"
proof -
  have "(x div m div n * n + x div m mod n) * m
      = x div m div n * (m * n) + (x div m mod n) * m"
    by (simp only: add_mult_distrib mult.assoc mult.commute [of n m])
  moreover have "x div m div n * n + x div m mod n = x div m"
    by (simp only: div_mult_mod_eq)
  moreover have "x div (m * n) = x div m div n"
    by (simp only: div_mult2_eq)
  moreover have "x div m * m + x mod m = x"
    by (simp only: div_mult_mod_eq)
  ultimately show ?thesis by (simp only:)
qed

lemma digits3:
  fixes cp :: nat
  shows "(cp div 4096) * 4096 + ((cp div 64) mod 64) * 64 + cp mod 64 = cp"
  using digits_gen [of cp 64 64] by simp

lemma digits4:
  fixes cp :: nat
  shows "(cp div 262144) * 262144 + ((cp div 4096) mod 64) * 4096
     + ((cp div 64) mod 64) * 64 + cp mod 64 = cp"
proof -
  have "cp div 262144 * 262144 + (cp div 4096 mod 64) * 4096 + cp mod 4096 = cp"
    using digits_gen [of cp 4096 64] by simp
  moreover have "(cp mod 4096 div 64) * 64 + cp mod 4096 mod 64 = cp mod 4096"
    by (simp only: div_mult_mod_eq)
  moreover have "cp mod 4096 div 64 = cp div 64 mod 64"
    using mod_mult2_eq [of cp 64 64] by simp
  moreover have "cp mod 4096 mod 64 = cp mod 64"
    using mod_mod_cancel [of 64 4096 cp] by simp
  ultimately show ?thesis by simp
qed

lemma decode1: "b < 128 \<Longrightarrow> utf8Decode (b # rest) = b # utf8Decode rest"
  by simp

lemma decode2:
  assumes "2 \<le> q" "q < 32" "r < 64"
  shows "utf8Decode ((192 + q) # (128 + r) # rest) = (q * 64 + r) # utf8Decode rest"
  using assms by (auto simp: inRange_def mod_offsets)

lemma decode3:
  assumes "q < 16" "m < 64" "r < 64" "q = 0 \<longrightarrow> 32 \<le> m" "q = 13 \<longrightarrow> m < 32"
  shows "utf8Decode ((224 + q) # (128 + m) # (128 + r) # rest)
       = (q * 4096 + m * 64 + r) # utf8Decode rest"
  using assms by (auto simp: inRange_def mod_offsets)

lemma decode4:
  assumes "p < 5" "q < 64" "m < 64" "r < 64" "p = 0 \<longrightarrow> 16 \<le> q" "p = 4 \<longrightarrow> q < 16"
  shows "utf8Decode ((240 + p) # (128 + q) # (128 + m) # (128 + r) # rest)
       = (p * 262144 + q * 4096 + m * 64 + r) # utf8Decode rest"
  using assms by (auto simp: inRange_def mod_offsets)

lemma utf8_encode_shape:
  assumes "isScalarValue cp"
  shows "(cp < 128 \<and> utf8EncodeCodePoint cp = [cp])
       \<or> (\<exists>q r. 2 \<le> q \<and> q < 32 \<and> r < 64 \<and> cp = q * 64 + r
             \<and> utf8EncodeCodePoint cp = [192 + q, 128 + r])
       \<or> (\<exists>q m r. q < 16 \<and> m < 64 \<and> r < 64 \<and> (q = 0 \<longrightarrow> 32 \<le> m) \<and> (q = 13 \<longrightarrow> m < 32)
             \<and> cp = q * 4096 + m * 64 + r
             \<and> utf8EncodeCodePoint cp = [224 + q, 128 + m, 128 + r])
       \<or> (\<exists>p q m r. p < 5 \<and> q < 64 \<and> m < 64 \<and> r < 64 \<and> (p = 0 \<longrightarrow> 16 \<le> q)
             \<and> (p = 4 \<longrightarrow> q < 16) \<and> cp = p * 262144 + q * 4096 + m * 64 + r
             \<and> utf8EncodeCodePoint cp = [240 + p, 128 + q, 128 + m, 128 + r])"
proof -
  consider "cp < 128" | "128 \<le> cp" "cp < 2048" | "2048 \<le> cp" "cp < 65536"
    | "65536 \<le> cp" by linarith
  then show ?thesis
  proof cases
    case 1
    then show ?thesis by (simp add: utf8EncodeCodePoint_def)
  next
    case 2
    define q r where "q = cp div 64" and "r = cp mod 64"
    have eq: "cp = q * 64 + r" by (simp add: q_def r_def)
    have r: "r < 64" by (simp add: r_def)
    have q: "2 \<le> q" "q < 32" using 2 eq r by linarith+
    have "utf8EncodeCodePoint cp = [192 + q, 128 + r]"
      using 2 by (simp add: utf8EncodeCodePoint_def q_def r_def)
    with eq r q show ?thesis by blast
  next
    case 3
    define q m r where "q = cp div 4096" and "m = (cp div 64) mod 64" and "r = cp mod 64"
    have eq: "cp = q * 4096 + m * 64 + r"
      using digits3 [of cp] by (simp add: q_def m_def r_def)
    have b: "m < 64" "r < 64" by (simp_all add: r_def m_def)
    have q: "q < 16" using 3 eq by linarith
    have lo: "q = 0 \<longrightarrow> 32 \<le> m" using 3 eq b by linarith
    have "cp < 55296 \<or> 57343 < cp"
      using assms by (auto simp: isScalarValue_def)
    then have hi: "q = 13 \<longrightarrow> m < 32" using eq b by linarith
    have "utf8EncodeCodePoint cp = [224 + q, 128 + m, 128 + r]"
      using 3 by (simp add: utf8EncodeCodePoint_def q_def r_def m_def)
    with eq b q lo hi show ?thesis by blast
  next
    case 4
    define p q m r where "p = cp div 262144" and "q = (cp div 4096) mod 64"
      and "m = (cp div 64) mod 64" and "r = cp mod 64"
    have eq: "cp = p * 262144 + q * 4096 + m * 64 + r"
      using digits4 [of cp] by (simp add: p_def q_def m_def r_def)
    have b: "q < 64" "m < 64" "r < 64" by (simp_all add: r_def m_def q_def)
    have "cp < 1114112" using assms by (simp add: isScalarValue_def)
    then have p: "p < 5" and hi: "p = 4 \<longrightarrow> q < 16" using eq b by linarith+
    have lo: "p = 0 \<longrightarrow> 16 \<le> q" using 4 eq b by linarith
    have "utf8EncodeCodePoint cp = [240 + p, 128 + q, 128 + m, 128 + r]"
      using 4 by (simp add: utf8EncodeCodePoint_def p_def q_def r_def m_def)
    with eq b p lo hi show ?thesis by blast
  qed
qed

lemma utf8Decode_encode:
  assumes "isScalarValue cp"
  shows "utf8Decode (utf8EncodeCodePoint cp @ rest) = cp # utf8Decode rest"
  using utf8_encode_shape [OF assms]
  by (elim disjE exE conjE) (simp_all only: append_Cons append_Nil decode1 decode2 decode3 decode4)

lemma utf8_encode_bytes:
  assumes "isScalarValue cp"
  shows "\<forall>b\<in>set (utf8EncodeCodePoint cp). b < 256"
  using utf8_encode_shape [OF assms]
  by (elim disjE exE conjE) simp_all

lemma utf8Decode_encode_all:
  assumes "\<forall>cp\<in>set cps. isScalarValue cp"
  shows "utf8Decode (concat (map utf8EncodeCodePoint cps)) = cps"
  using assms by (induction cps) (simp_all add: utf8Decode_encode)

lemma surrogate_pair:
  assumes "isHighSurrogate u" "isLowSurrogate v"
  shows "codeUnits (0x10000 + (u - 0xD800) * 0x400 + (v - 0xDC00)) = [u, v]"
    and "isScalarValue (0x10000 + (u - 0xD800) * 0x400 + (v - 0xDC00))"
proof -
  define a b where "a = u - 0xD800" and "b = v - 0xDC00"
  have a: "a < 1024" "u = 55296 + a" and b: "b < 1024" "v = 56320 + b"
    using assms by (auto simp: a_def b_def isHighSurrogate_def isLowSurrogate_def)
  have cp: "0x10000 + (u - 0xD800) * 0x400 + (v - 0xDC00) = 65536 + (a * 1024 + b)"
    by (simp add: a_def b_def)
  show "codeUnits (0x10000 + (u - 0xD800) * 0x400 + (v - 0xDC00)) = [u, v]"
    unfolding cp using a b by (simp add: codeUnits_def divmod_recompose)
  show "isScalarValue (0x10000 + (u - 0xD800) * 0x400 + (v - 0xDC00))"
    unfolding cp using a b by (simp add: isScalarValue_def)
qed

lemma bmp_unit:
  assumes "\<not> isHighSurrogate u" "\<not> isLowSurrogate u" "u < 65536"
  shows "codeUnits u = [u]" "isScalarValue u"
proof -
  show "codeUnits u = [u]" using assms(3) by (simp add: codeUnits_def)
  have "u < 55296 \<or> 57343 < u"
    using assms(1,2) unfolding isLowSurrogate_def isHighSurrogate_def by linarith
  then show "isScalarValue u"
    using assms(3) unfolding isScalarValue_def by linarith
qed

lemma codeUnits_codePoints:
  assumes "wellFormedUnits us" "\<forall>u\<in>set us. u < 65536"
  shows "concat (map codeUnits (codePoints us)) = us
       \<and> (\<forall>cp\<in>set (codePoints us). isScalarValue cp)"
  using assms
proof (induction us rule: codePoints.induct)
  case (1 u v rest)
  show ?case
  proof (cases "isHighSurrogate u")
    case True
    with "1.prems" have low: "isLowSurrogate v" and wf: "wellFormedUnits rest"
      and small: "\<forall>u\<in>set rest. u < 65536" by simp_all
    have cps: "codePoints (u # v # rest)
        = (0x10000 + (u - 0xD800) * 0x400 + (v - 0xDC00)) # codePoints rest"
      using True low by simp
    from "1.IH"(1) True low wf small
    have "concat (map codeUnits (codePoints rest)) = rest"
      "\<forall>cp\<in>set (codePoints rest). isScalarValue cp" by simp_all
    then show ?thesis
      unfolding cps using surrogate_pair [OF True low] by simp
  next
    case False
    with "1.prems" have nl: "\<not> isLowSurrogate u" and wf: "wellFormedUnits (v # rest)"
      and small: "\<forall>u\<in>set (v # rest). u < 65536" and u: "u < 65536" by simp_all
    have cps: "codePoints (u # v # rest) = u # codePoints (v # rest)"
      using False nl by simp
    from "1.IH"(2) False wf small
    have "concat (map codeUnits (codePoints (v # rest))) = v # rest"
      "\<forall>cp\<in>set (codePoints (v # rest)). isScalarValue cp" by simp_all
    then show ?thesis
      unfolding cps using bmp_unit [OF False nl u] by simp
  qed
next
  case (2 u)
  then show ?case using bmp_unit [of u] by simp
next
  case 3
  then show ?case by simp
qed

lemma no_bom_codepoint:
  assumes "isScalarValue c" "c \<noteq> 65279"
  shows "take 3 (utf8EncodeCodePoint c @ following) \<noteq> [239, 187, 191]"
proof
  assume eq: "take 3 (utf8EncodeCodePoint c @ following) = [239, 187, 191]"
  from utf8_encode_shape [OF assms(1)] show False
  proof (elim disjE exE conjE)
    assume "c < 128" "utf8EncodeCodePoint c = [c]"
    with eq show False by simp
  next
    fix q r :: nat
    assume "q < 32" "utf8EncodeCodePoint c = [192 + q, 128 + r]"
    with eq show False by simp
  next
    fix q m r :: nat
    assume c: "c = q * 4096 + m * 64 + r"
      and "utf8EncodeCodePoint c = [224 + q, 128 + m, 128 + r]"
    with eq have "q = 15" "m = 59" "r = 63" by simp_all
    with c assms(2) show False by simp
  next
    fix p q m r :: nat
    assume "utf8EncodeCodePoint c = [240 + p, 128 + q, 128 + m, 128 + r]"
    with eq show False by simp
  qed
qed

lemma no_bom_units:
  assumes "wellFormedUnits us" "\<forall>u\<in>set us. u < 65536" "take 1 us \<noteq> [65279]"
  shows "take 3 (concat (map utf8EncodeCodePoint (codePoints us))) \<noteq> [239, 187, 191]"
proof (cases us rule: codePoints.cases)
  case (1 u v rest)
  show ?thesis
  proof (cases "isHighSurrogate u")
    case True
    with 1 assms have low: "isLowSurrogate v" by simp
    have "65279 < 0x10000 + (u - 0xD800) * 0x400 + (v - 0xDC00)" by simp
    then have "0x10000 + (u - 0xD800) * 0x400 + (v - 0xDC00) \<noteq> 65279" by linarith
    with True low 1 show ?thesis
      using no_bom_codepoint [OF surrogate_pair(2) [OF True low]] by simp
  next
    case False
    with 1 assms have "isScalarValue u" "u \<noteq> 65279"
      by (auto simp: isScalarValue_def isLowSurrogate_def isHighSurrogate_def)
    with False 1 assms show ?thesis
      using no_bom_codepoint [of u] by simp
  qed
next
  case (2 u)
  with assms have "isScalarValue u" "u \<noteq> 65279"
    by (auto simp: isScalarValue_def isLowSurrogate_def isHighSurrogate_def)
  with 2 assms show ?thesis using no_bom_codepoint [of u "[]"] by simp
next
  case 3
  then show ?thesis by simp
qed

lemma text_roundtrip:
  assumes "isWellFormed s" "\<not> startsWith s [0xFEFF]"
  shows "TextDecoder_decode (TextEncoder_encode s) = s"
proof -
  define us where "us = map unat s"
  define bs where "bs = concat (map utf8EncodeCodePoint (codePoints us))"
  have wf: "wellFormedUnits us" using assms(1) by (simp add: isWellFormed_def us_def)
  have small: "\<forall>u\<in>set us. u < 65536"
    using unsigned_less [where 'b = 16] by (auto simp: us_def)
  note cu = codeUnits_codePoints [OF wf small]
  have bytes: "\<forall>b\<in>set bs. b < 256"
    using cu utf8_encode_bytes by (auto simp: bs_def)
  have enc: "TextEncoder_encode s = map of_nat bs"
    by (simp add: TextEncoder_encode_def bs_def us_def)
  have restored: "map unat (map of_nat bs :: bytes) = bs"
    using bytes by (simp add: map_idI unat8_small)
  have restored': "map (unat \<circ> (of_nat :: nat \<Rightarrow> 8 word)) bs = bs"
    using restored by simp
  have first: "take 1 us \<noteq> [65279]"
  proof
    assume "take 1 us = [65279]"
    then obtain rest where "us = 65279 # rest" by (cases us) auto
    then obtain w ws where s: "s = w # ws" and "unat w = 65279"
      by (auto simp: us_def)
    then have "w = 0xFEFF" by (simp add: word_unat_eq_iff)
    with s assms(2) show False by (simp add: startsWith_def)
  qed
  have nb: "take 3 bs \<noteq> [239, 187, 191]"
    unfolding bs_def by (rule no_bom_units [OF wf small first])
  have "take 3 (map unat (map of_nat bs :: bytes)) \<noteq> [239, 187, 191]"
    unfolding restored by (rule nb)
  then have nobom: "take 3 (map of_nat bs :: bytes) \<noteq> [0xEF, 0xBB, 0xBF]"
    by (auto simp: take_map dest: arg_cong [where f = "map unat"])
  have "TextDecoder_decode (map of_nat bs) = map of_nat (concat (map codeUnits (utf8Decode bs)))"
    using nobom by (simp add: TextDecoder_decode_def restored')
  also have "utf8Decode bs = codePoints us"
    unfolding bs_def using cu by (simp add: utf8Decode_encode_all)
  also have "concat (map codeUnits (codePoints us)) = us" using cu by simp
  also have "map of_nat us = s" by (simp add: us_def comp_def)
  finally show ?thesis by (simp add: enc)
qed

subsection \<open>The codec of the token engine\<close>

lemma codec_roundtrip:
  assumes "isWellFormed s" "\<not> startsWith s [0xFEFF]"
  shows "base64UrlDecode (base64UrlEncode s) = Inr s"
  using base64_roundtrip [of "TextEncoder_encode s"] text_roundtrip [OF assms]
  by (simp add: base64UrlDecode_def base64UrlEncode_def Let_def)



lemma base64url_form:
  fixes data :: bytes
  shows "\<exists>B. (\<forall>c\<in>set B. isBase64Code c)
       \<and> replaceAll 61 [] (replaceAll 47 [95] (replaceAll 43 [45] (btoa data)))
           = map (\<lambda>c. urlChar (of_nat c)) B"
proof -
  define xs where "xs = map unat data"
  define B where "B = bodyOf xs"
  define k where "k = (4 - length B mod 4) mod 4"
  define W :: jsstring where "W = map of_nat B"
  have bytes: "\<forall>x\<in>set xs. x < 256"
    using unsigned_less [where 'b = 8] by (auto simp: xs_def)
  note shape = btoaGroups_shape [OF bytes, folded B_def k_def]
  have codes: "\<forall>c\<in>set B. isBase64Code c" using shape by simp
  have btoa: "btoa data = W @ replicate k 61"
    using shape by (simp add: btoa_def W_def k_def xs_def [symmetric])
  have Wp: "\<forall>w\<in>set W. w \<noteq> 61 \<and> w \<noteq> 45 \<and> w \<noteq> 95 \<and> \<not> isAsciiWhitespace w"
    using codes base64_word_props unfolding W_def by auto
  have "replaceAll 61 [] (replaceAll 47 [95] (replaceAll 43 [45] (btoa data))) = map urlChar W"
    using Wp unfolding url_replace replaceAll_empty btoa
    by (auto simp: urlChar_props filter_id_conv urlChar_def)
  then show ?thesis using codes by (auto simp: W_def comp_def)
qed

lemma urlChar_safe:
  assumes "isBase64Code c"
  shows "isUrlSafeChar (urlChar (of_nat c))"
proof -
  from assms obtain i where i: "i < 64" "c = base64Code i"
    by (auto simp: isBase64Code_def)
  have u: "unat (of_nat c :: 16 word) = c" using assms by (rule word16_of_code)
  consider "c = 43" | "c = 47" | "c \<noteq> 43" "c \<noteq> 47" by blast
  then show ?thesis
  proof cases
    case 1
    then show ?thesis by (simp add: urlChar_def isUrlSafeChar_def)
  next
    case 2
    then show ?thesis by (simp add: urlChar_def isUrlSafeChar_def)
  next
    case 3
    then have w: "(of_nat c :: 16 word) \<noteq> 43" "(of_nat c :: 16 word) \<noteq> 47"
      using u by (auto simp: word_unat_eq_iff)
    have "(65 \<le> c \<and> c \<le> 90) \<or> (97 \<le> c \<and> c \<le> 122) \<or> (48 \<le> c \<and> c \<le> 57)"
      using i 3 unfolding base64Code_def by (auto split: if_splits)
    then show ?thesis
      using w u by (auto simp: urlChar_def isUrlSafeChar_def Let_def)
  qed
qed

lemma base64url_safe:
  "list_all isUrlSafeChar (replaceAll 61 [] (replaceAll 47 [95] (replaceAll 43 [45] (btoa data))))"
proof -
  from base64url_form [of data] obtain B where
    B: "\<forall>c\<in>set B. isBase64Code c"
    "replaceAll 61 [] (replaceAll 47 [95] (replaceAll 43 [45] (btoa data)))
       = map (\<lambda>c. urlChar (of_nat c)) B" by blast
  show ?thesis unfolding B(2) using B(1) by (simp add: list_all_iff urlChar_safe)
qed

lemma urlSafe_not_dot: "isUrlSafeChar c \<Longrightarrow> c \<noteq> 46"
  by (auto simp: isUrlSafeChar_def Let_def)

lemma base64UrlEncode_safe: "list_all isUrlSafeChar (base64UrlEncode s)"
  using base64url_safe [of "TextEncoder_encode s"] by (simp add: base64UrlEncode_def Let_def)

lemma sign256_safe: "list_all isUrlSafeChar (sign256 P this data)"
  using base64url_safe by (simp add: sign256_def Let_def)

lemma no_dot: "list_all isUrlSafeChar s \<Longrightarrow> 46 \<notin> set s"
  using urlSafe_not_dot by (auto simp: list_all_iff)


section \<open>Issued tokens verify\<close>

lemma split_nonempty: "split t sep \<noteq> []"
  by (cases t) (simp_all split: list.splits)

lemma split_no_sep: "sep \<notin> set a \<Longrightarrow> split a sep = [a]"
  by (induction a) auto

lemma split_at_sep: "sep \<notin> set a \<Longrightarrow> split (a @ sep # rest) sep = a # split rest sep"
  by (induction a) (auto simp: split_nonempty split: list.splits)

lemma split_three:
  assumes "46 \<notin> set a" "46 \<notin> set b" "46 \<notin> set c"
  shows "split (a @ str ''.'' @ b @ str ''.'' @ c) 46 = [a, b, c]"
proof -
  have dot: "str ''.'' = [46]" by (simp add: str_def)
  show ?thesis
    unfolding dot using assms by (simp add: split_at_sep split_no_sep)
qed

lemma sign_parts:
  "split (sign P this clock payload expiresIn) 46 =
     [base64UrlEncode headerJson,
      base64UrlEncode (jsonStringify P (fullPayload payload clock expiresIn)),
      sign256 P this (base64UrlEncode headerJson @ str ''.''
        @ base64UrlEncode (jsonStringify P (fullPayload payload clock expiresIn)))]"
  unfolding sign_def Let_def fullPayload_def [symmetric]
  by (intro split_three no_dot base64UrlEncode_safe sign256_safe)

lemma verify_sign:
  assumes "jsonFaithful P (fullPayload payload clock expiresIn)"
  shows "verify P this clock' (sign P this clock payload expiresIn) =
     (if clock div 1000 + expiresIn < clock' div 1000
      then Inl (ApiError ''Token has expired'' 401)
      else Inr (fullPayload payload clock expiresIn))"
proof -
  define full where "full = fullPayload payload clock expiresIn"
  have dec: "base64UrlDecode (base64UrlEncode (jsonStringify P full)) = Inr (jsonStringify P full)"
    using assms unfolding full_def jsonFaithful_def by (intro codec_roundtrip) simp_all
  have parse: "jsonParse P (jsonStringify P full) = Some full"
    using assms unfolding full_def jsonFaithful_def by simp
  have e: "exp full = clock div 1000 + expiresIn"
    by (simp add: full_def fullPayload_def)
  show ?thesis
    unfolding verify_def sign_parts full_def [symmetric]
    by (simp add: Let_def dec parse e)
qed

section \<open>The order of the checks of verify\<close>








section \<open>Token kinds\<close>



lemma stub_faithful: "jsonFaithful (stubPlatform (Some p)) p"
  by (simp add: jsonFaithful_def stubPlatform_def isWellFormed_def startsWith_def str_def
      isHighSurrogate_def isLowSurrogate_def)



section \<open>Tokens of the plain sign path\<close>

lemma sign_nonempty: "sign P this clock payload expiresIn \<noteq> []"
  by (simp add: sign_def Let_def str_def)

text \<open>
  Claim C10. The token made by \<open>generateUserToken\<close> has no \<open>type\<close> and no \<open>jti\<close> claim
  and expires 7 days (604800 seconds) after it was issued. Within its lifetime \<open>verify\<close>
  accepts it, and so does the refresh route, which calls \<open>verify\<close> directly and issues
  a new token; \<open>verifyAccessToken\<close> and \<open>verifyRefreshToken\<close> both reject it with a 401
  error, since its \<open>type\<close> is neither \<open>access\<close> nor \<open>refresh\<close>.
\<close>

theorem C10_generateUserToken:
  "jsonFaithful P
     (fullPayload \<lparr>userId = User_id user, email = User_email user, role = User_role user,
        type = None, jti = None\<rparr> clock (7 * 24 * 60 * 60))
   \<longrightarrow> clock' div 1000 \<le> clock div 1000 + 7 * 24 * 60 * 60
   \<longrightarrow> verify P \<lparr>secret = s\<rparr> clock' (generateUserToken P \<lparr>secret = s\<rparr> clock user)
         = Inr \<lparr>userId = User_id user, email = User_email user, role = User_role user,
                type = None, jti = None,
                iat = clock div 1000, exp = clock div 1000 + 604800\<rparr>
       \<and> verifyAccessToken P \<lparr>secret = s\<rparr> clock' (generateUserToken P \<lparr>secret = s\<rparr> clock user)
         = Inl (ApiError ''Invalid access token'' 401)
       \<and> verifyRefreshToken P \<lparr>secret = s\<rparr> clock' (generateUserToken P \<lparr>secret = s\<rparr> clock user)
         = Inl (ApiError ''Invalid refresh token'' 401)
       \<and> refreshToken P (\<lambda>i. if i = User_id user then Some (user\<lparr>is_active := True\<rparr>) else None)
           s clock' (Some (generateUserToken P \<lparr>secret = s\<rparr> clock user))
         = Inr (generateUserToken P \<lparr>secret = s\<rparr> clock' (user\<lparr>is_active := True\<rparr>))"
  by (simp add: generateUserToken_def verify_sign verifyAccessToken_def verifyRefreshToken_def
      refreshToken_def sign_nonempty fullPayload_def Let_def)

theorem C10_generateUserToken_witness:
  "verify
     (stubPlatform (Some \<lparr>userId = str ''u1'', email = str ''e'', role = str ''user'',
        type = None, jti = None, iat = 5, exp = 604805\<rparr>))
     \<lparr>secret = str ''k''\<rparr> 86400000
     (generateUserToken
        (stubPlatform (Some \<lparr>userId = str ''u1'', email = str ''e'', role = str ''user'',
           type = None, jti = None, iat = 5, exp = 604805\<rparr>))
        \<lparr>secret = str ''k''\<rparr> 5000
        \<lparr>User_id = str ''u1'', User_email = str ''e'', User_role = str ''user'', is_active = True\<rparr>)
     = Inr \<lparr>userId = str ''u1'', email = str ''e'', role = str ''user'',
            type = None, jti = None, iat = 5, exp = 604805\<rparr>
   \<and> verifyAccessToken
       (stubPlatform (Some \<lparr>userId = str ''u1'', email = str ''e'', role = str ''user'',
          type = None, jti = None, iat = 5, exp = 604805\<rparr>))
       \<lparr>secret = str ''k''\<rparr> 86400000
       (generateUserToken
          (stubPlatform (Some \<lparr>userId = str ''u1'', email = str ''e'', role = str ''user'',
             type = None, jti = None, iat = 5, exp = 604805\<rparr>))
          \<lparr>secret = str ''k''\<rparr> 5000
          \<lparr>User_id = str ''u1'', User_email = str ''e'', User_role = str ''user'', is_active = True\<rparr>)
     = Inl (ApiError ''Invalid access token'' 401)
   \<and> verifyRefreshToken
       (stubPlatform (Some \<lparr>userId = str ''u1'', email = str ''e'', role = str ''user'',
          type = None, jti = None, iat = 5, exp = 604805\<rparr>))
       \<lparr>secret = str ''k''\<rparr> 86400000
       (generateUserToken
          (stubPlatform (Some \<lparr>userId = str ''u1'', email = str ''e'', role = str ''user'',
             type = None, jti = None, iat = 5, exp = 604805\<rparr>))
          \<lparr>secret = str ''k''\<rparr> 5000
          \<lparr>User_id = str ''u1'', User_email = str ''e'', User_role = str ''user'', is_active = True\<rparr>)
     = Inl (ApiError ''Invalid refresh token'' 401)"
proof -
  let ?f = "\<lparr>userId = str ''u1'', email = str ''e'', role = str ''user'',
          type = None, jti = None, iat = 5, exp = 604805\<rparr>"
  let ?u = "\<lparr>User_id = str ''u1'', User_email = str ''e'', User_role = str ''user'',
          is_active = True\<rparr>"
  have f: "fullPayload \<lparr>userId = User_id ?u, email = User_email ?u, role = User_role ?u,
        type = None, jti = None\<rparr> 5000 (7 * 24 * 60 * 60) = ?f"
    by (simp add: fullPayload_def)
  have h: "jsonFaithful (stubPlatform (Some ?f))
     (fullPayload \<lparr>userId = User_id ?u, email = User_email ?u, role = User_role ?u,
        type = None, jti = None\<rparr> 5000 (7 * 24 * 60 * 60))"
    unfolding f by (rule stub_faithful)
  have t: "(86400000::int) div 1000 \<le> 5000 div 1000 + 7 * 24 * 60 * 60" by simp
  from C10_generateUserToken [where P = "stubPlatform (Some ?f)" and user = ?u and clock = 5000
      and clock' = 86400000 and s = "str ''k''"] h t
  show ?thesis by simp
qed

section \<open>The registry as a map\<close>

lemma map_of_Map_delete: "map_of (Map_delete m k) = (map_of m)(k := None)"
  by (induction m) (auto simp: Map_delete_def)

lemma keys_Map_delete: "map fst (Map_delete m k) = removeAll k (map fst m)"
  by (induction m) (auto simp: Map_delete_def)

lemma distinct_Map_delete: "distinct (map fst m) \<Longrightarrow> distinct (map fst (Map_delete m k))"
  by (simp add: keys_Map_delete distinct_removeAll)

lemma map_of_Map_set: "map_of (Map_set m k v) = (map_of m)(k \<mapsto> v)"
  by (induction m) auto

lemma keys_Map_set:
  "map fst (Map_set m k v) = (if k \<in> set (map fst m) then map fst m else map fst m @ [k])"
  by (induction m) (force split: if_splits)+

lemma distinct_Map_set: "distinct (map fst m) \<Longrightarrow> distinct (map fst (Map_set m k v))"
  by (simp add: keys_Map_set)

lemma Map_set_fresh: "k \<notin> set (map fst m) \<Longrightarrow> Map_set m k v = m @ [(k, v)]"
  by (induction m) auto

lemma Map_delete_filter:
  "Map_delete (filter Q m) k = filter (\<lambda>e. Q e \<and> fst e \<noteq> k) m"
  by (induction m) (auto simp: Map_delete_def)

text \<open>The loop of revokeAllUserTokens and cleanupExpiredTokens, for any condition.\<close>

lemma delete_loop_general:
  "fold (\<lambda>(j, d) store. if C d then Map_delete store j else store) xs m
     = filter (\<lambda>e. fst e \<notin> fst ` {x \<in> set xs. C (snd x)}) m"
proof (induction xs arbitrary: m)
  case Nil
  then show ?case by simp
next
  case (Cons x xs)
  obtain j d where x: "x = (j, d)" by (cases x)
  show ?case
  proof (cases "C d")
    case True
    have "fold (\<lambda>(j, d) store. if C d then Map_delete store j else store) (x # xs) m
        = filter (\<lambda>e. fst e \<notin> fst ` {x \<in> set xs. C (snd x)}) (Map_delete m j)"
      using True by (simp add: x Cons.IH)
    also have "\<dots> = filter (\<lambda>e. fst e \<notin> fst ` {x \<in> set xs. C (snd x)} \<and> fst e \<noteq> j) m"
      by (simp add: Map_delete_def case_prod_unfold conj_commute)
    also have "\<dots> = filter (\<lambda>e. fst e \<notin> fst ` {y \<in> set (x # xs). C (snd y)}) m"
      using True by (intro filter_cong) (force simp: x)+
    finally show ?thesis .
  next
    case False
    then have "{y \<in> set (x # xs). C (snd y)} = {y \<in> set xs. C (snd y)}"
      by (auto simp: x)
    with False show ?thesis by (simp add: x Cons.IH)
  qed
qed

lemma delete_loop:
  assumes "distinct (map fst m)"
  shows "fold (\<lambda>(j, d) store. if C d then Map_delete store j else store) m m
     = filter (\<lambda>(j, d). \<not> C d) m"
proof -
  have "fst e \<notin> fst ` {x \<in> set m. C (snd x)} \<longleftrightarrow> \<not> C (snd e)" if "e \<in> set m" for e
  proof -
    have "snd x = snd e" if "x \<in> set m" "fst x = fst e" for x
      using assms that \<open>e \<in> set m\<close> by (metis eq_key_imp_eq_value prod.collapse)
    then show ?thesis using that by force
  qed
  then show ?thesis
    unfolding delete_loop_general by (intro filter_cong) (auto simp: case_prod_unfold)
qed

lemma revokeAllUserTokens_store:
  assumes "distinct (map fst (refreshTokenStore tm))"
  shows "refreshTokenStore (revokeAllUserTokens tm uid)
     = filter (\<lambda>(j, d). tokenUserId d \<noteq> uid) (refreshTokenStore tm)"
  using delete_loop [OF assms, of "\<lambda>d. tokenUserId d = uid"]
  by (simp add: revokeAllUserTokens_def)

lemma invariant_registry:
  assumes "distinct (map fst (refreshTokenStore tm))"
  shows "distinct (map fst (refreshTokenStore (snd (generateTokenPair P tm clock uuid user))))"
    and "distinct (map fst (refreshTokenStore (snd (refreshAccessToken P tm clock token))))"
    and "distinct (map fst (refreshTokenStore (revokeRefreshToken P tm clock token)))"
    and "distinct (map fst (refreshTokenStore (revokeAllUserTokens tm uid)))"
    and "distinct (map fst (refreshTokenStore (cleanupExpiredTokens tm clock)))"
proof -
  show "distinct (map fst (refreshTokenStore (snd (generateTokenPair P tm clock uuid user))))"
    using assms
    by (simp add: generateTokenPair_def Let_def distinct_Map_set split: sum.splits option.splits)
  show "distinct (map fst (refreshTokenStore (snd (refreshAccessToken P tm clock token))))"
    using assms
    by (simp add: refreshAccessToken_def refreshAccessToken_try_def Let_def distinct_Map_delete
        split: sum.splits option.splits prod.splits if_splits)
  show "distinct (map fst (refreshTokenStore (revokeRefreshToken P tm clock token)))"
    using assms
    by (simp add: revokeRefreshToken_def distinct_Map_delete split: sum.splits option.splits)
  show "distinct (map fst (refreshTokenStore (revokeAllUserTokens tm uid)))"
    using assms by (simp add: revokeAllUserTokens_store distinct_map_filter)
  show "distinct (map fst (refreshTokenStore (cleanupExpiredTokens tm clock)))"
    using delete_loop [OF assms, of "\<lambda>d. clock > expiresAt d"] assms
    by (simp add: cleanupExpiredTokens_def Let_def distinct_map_filter)
qed

lemma invariant_initial: "distinct (map fst (refreshTokenStore (newTokenManager s)))"
  by (simp add: newTokenManager_def)

section \<open>Refreshing an access token\<close>

lemma verifyRefreshToken_signed:
  assumes "jsonFaithful P
     (fullPayload (c\<lparr>type := Some (str ''refresh''), jti := Some j\<rparr>) clock expiresIn)"
  shows "verifyRefreshToken P this clock' (signRefreshToken P this clock j c expiresIn) =
     (if clock div 1000 + expiresIn < clock' div 1000
      then Inl (ApiError ''Token has expired'' 401)
      else Inr (fullPayload (c\<lparr>type := Some (str ''refresh''), jti := Some j\<rparr>) clock expiresIn))"
  using assms
  by (simp add: verifyRefreshToken_def signRefreshToken_def verify_sign Let_def fullPayload_def)

lemma generateTokenPair_ok:
  assumes "jsonFaithful P
     (fullPayload \<lparr>userId = userId user, email = email user, role = role user,
        type = Some (str ''refresh''), jti = Some j\<rparr> clock (7 * 24 * 60 * 60))"
    and "j \<noteq> []"
  shows "generateTokenPair P tm clock j user =
     (Inr \<lparr>pairAccessToken = signAccessToken P (jwt tm) clock
              \<lparr>userId = userId user, email = email user, role = role user,
               type = None, jti = None\<rparr> (15 * 60),
            pairRefreshToken = signRefreshToken P (jwt tm) clock j
              \<lparr>userId = userId user, email = email user, role = role user,
               type = None, jti = None\<rparr> (7 * 24 * 60 * 60),
            pairExpiresIn = 15 * 60\<rparr>,
      tm\<lparr>refreshTokenStore := Map_set (refreshTokenStore tm) j
           (TokenData (userId user) ((clock div 1000 + 7 * 24 * 60 * 60) * 1000))\<rparr>)"
proof -
  let ?c = "\<lparr>userId = userId user, email = email user, role = role user,
             type = None, jti = None\<rparr>"
  have f: "jsonFaithful P
     (fullPayload (?c\<lparr>type := Some (str ''refresh''), jti := Some j\<rparr>) clock (7 * 24 * 60 * 60))"
    using assms(1) by simp
  show ?thesis
    unfolding generateTokenPair_def Let_def verifyRefreshToken_signed [OF f]
    using assms(2) by (simp add: fullPayload_def)
qed

lemma refreshAccessToken_cases:
  assumes "verifyRefreshToken P (jwt tm) clock token = Inr rp"
  shows "refreshAccessToken P tm clock token =
     (case jti rp of
        None \<Rightarrow> (Inl (ApiError ''Invalid refresh token'' 401), tm)
      | Some j \<Rightarrow>
          if j = [] then (Inl (ApiError ''Invalid refresh token'' 401), tm)
          else
            (case Map_get (refreshTokenStore tm) j of
               None \<Rightarrow> (Inl (ApiError ''Invalid refresh token'' 401), tm)
             | Some d \<Rightarrow>
                 if clock > expiresAt d
                 then (Inl (ApiError ''Invalid refresh token'' 401),
                       tm\<lparr>refreshTokenStore := Map_delete (refreshTokenStore tm) j\<rparr>)
                 else (Inr \<lparr>grantAccessToken = signAccessToken P (jwt tm) clock
                              \<lparr>userId = userId rp, email = email rp, role = role rp,
                               type = None, jti = None\<rparr> (15 * 60),
                            grantExpiresIn = 15 * 60\<rparr>, tm)))"
  using assms
  by (simp add: refreshAccessToken_def refreshAccessToken_try_def Map_has_def Map_get_def Let_def
      split: option.splits)

lemma refreshAccessToken_verify_fails:
  assumes "verifyRefreshToken P (jwt tm) clock token = Inl e"
  shows "refreshAccessToken P tm clock token = (Inl (ApiError ''Invalid refresh token'' 401), tm)"
  using assms by (simp add: refreshAccessToken_def refreshAccessToken_try_def)

text \<open>
  Claim C1. \<open>refreshAccessToken\<close>, for a refresh token that \<open>verifyRefreshToken\<close>
  accepts with payload \<open>rp\<close>:
  \<^item> if the payload has no token id, or an empty one, or one with no record in the registry,
    the call fails with \<open>Invalid refresh token\<close> (401) and the registry is unchanged;
  \<^item> if the record is there and the clock is past its \<open>expiresAt\<close>, the \<^verbatim>\<open>try\<close> block
    removes the record and throws \<open>Refresh token expired\<close>, but the \<^verbatim>\<open>catch\<close> of the method
    replaces that error: the caller gets \<open>Invalid refresh token\<close> (401), with the record
    removed;
  \<^item> otherwise the call returns one access token signed for the \<open>userId\<close>, \<open>email\<close> and
    \<open>role\<close> of the payload, valid 15 minutes, and the registry is unchanged.

  In no case at all does the method fail with \<open>Refresh token expired\<close>.
\<close>

theorem C1_refreshAccessToken:
  "(verifyRefreshToken P (jwt tm) clock token = Inr rp \<longrightarrow>
      (jti rp = None \<or> jti rp = Some [] \<or> (jti rp = Some j \<and> Map_get (refreshTokenStore tm) j = None)
         \<longrightarrow> refreshAccessToken P tm clock token
               = (Inl (ApiError ''Invalid refresh token'' 401), tm))
    \<and> (jti rp = Some j \<and> j \<noteq> [] \<and> Map_get (refreshTokenStore tm) j = Some d
          \<and> clock > expiresAt d
         \<longrightarrow> refreshAccessToken_try P tm clock token
               = (Inl (ApiError ''Refresh token expired'' 401),
                  tm\<lparr>refreshTokenStore := Map_delete (refreshTokenStore tm) j\<rparr>)
           \<and> refreshAccessToken P tm clock token
               = (Inl (ApiError ''Invalid refresh token'' 401),
                  tm\<lparr>refreshTokenStore := Map_delete (refreshTokenStore tm) j\<rparr>))
    \<and> (jti rp = Some j \<and> j \<noteq> [] \<and> Map_get (refreshTokenStore tm) j = Some d
          \<and> \<not> clock > expiresAt d
         \<longrightarrow> refreshAccessToken P tm clock token
               = (Inr \<lparr>grantAccessToken = signAccessToken P (jwt tm) clock
                          \<lparr>userId = userId rp, email = email rp, role = role rp,
                           type = None, jti = None\<rparr> (15 * 60),
                        grantExpiresIn = 15 * 60\<rparr>, tm)))
   \<and> fst (refreshAccessToken P tm clock token) \<noteq> Inl (ApiError ''Refresh token expired'' 401)"
proof -
  have never: "fst (refreshAccessToken P tm clock token) \<noteq> Inl (ApiError ''Refresh token expired'' 401)"
    by (simp add: refreshAccessToken_def split: prod.splits sum.splits)
  have try_expired: "refreshAccessToken_try P tm clock token
      = (Inl (ApiError ''Refresh token expired'' 401),
         tm\<lparr>refreshTokenStore := Map_delete (refreshTokenStore tm) j\<rparr>)"
    if "verifyRefreshToken P (jwt tm) clock token = Inr rp" "jti rp = Some j" "j \<noteq> []"
      "Map_get (refreshTokenStore tm) j = Some d" "clock > expiresAt d"
    using that by (simp add: refreshAccessToken_try_def Map_has_def Map_get_def)
  show ?thesis
    using never try_expired
    by (auto simp: refreshAccessToken_cases)
qed

lemma generateTokenPair_claims:
  assumes "jsonFaithful P (fullPayload (refreshClaims user j) clock 604800)" and "j \<noteq> []"
  shows "generateTokenPair P tm clock j user =
     (Inr \<lparr>pairAccessToken = signAccessToken P (jwt tm) clock (claimsOf user) 900,
            pairRefreshToken = signRefreshToken P (jwt tm) clock j (claimsOf user) 604800,
            pairExpiresIn = 900\<rparr>,
      tm\<lparr>refreshTokenStore := Map_set (refreshTokenStore tm) j
           (TokenData (userId user) ((clock div 1000 + 604800) * 1000))\<rparr>)"
  using generateTokenPair_ok [where P = P and user = user and j = j and clock = clock and tm = tm] assms
  by (simp add: claimsOf_def refreshClaims_def)

lemma verifyRefreshToken_issued:
  assumes "jsonFaithful P (fullPayload (refreshClaims user j) clock 604800)"
  shows "verifyRefreshToken P this clock' (signRefreshToken P this clock j (claimsOf user) 604800) =
     (if clock div 1000 + 604800 < clock' div 1000
      then Inl (ApiError ''Token has expired'' 401)
      else Inr (fullPayload (refreshClaims user j) clock 604800))"
  using verifyRefreshToken_signed [where P = P and c = "claimsOf user" and j = j and clock = clock
      and expiresIn = 604800 and this = this and clock' = clock'] assms
  by (simp add: claimsOf_def refreshClaims_def)

lemma refresh_fails_when_absent:
  assumes "jsonFaithful P (fullPayload (refreshClaims user j) clock 604800)"
    and "Map_get (refreshTokenStore tm) j = None"
  shows "refreshAccessToken P tm clock'
      (signRefreshToken P (jwt tm) clock j (claimsOf user) 604800)
     = (Inl (ApiError ''Invalid refresh token'' 401), tm)"
proof (cases "clock div 1000 + 604800 < clock' div 1000")
  case True
  then show ?thesis
    using verifyRefreshToken_issued [OF assms(1), of "jwt tm" clock']
    by (simp add: refreshAccessToken_verify_fails)
next
  case False
  then have "verifyRefreshToken P (jwt tm) clock'
      (signRefreshToken P (jwt tm) clock j (claimsOf user) 604800)
      = Inr (fullPayload (refreshClaims user j) clock 604800)"
    using verifyRefreshToken_issued [OF assms(1), of "jwt tm" clock'] by simp
  from refreshAccessToken_cases [OF this] assms(2) show ?thesis
    by (simp add: fullPayload_def refreshClaims_def)
qed

theorem C1_refreshAccessToken_witness:
  "refreshAccessToken
     (stubPlatform (Some \<lparr>userId = str ''u1'', email = str ''e'', role = str ''user'',
        type = Some (str ''refresh''), jti = Some (str ''j1''), iat = 5, exp = 604805\<rparr>))
     (newTokenManager (str ''k'')) 5000
     (signRefreshToken
        (stubPlatform (Some \<lparr>userId = str ''u1'', email = str ''e'', role = str ''user'',
           type = Some (str ''refresh''), jti = Some (str ''j1''), iat = 5, exp = 604805\<rparr>))
        \<lparr>secret = str ''k''\<rparr> 5000 (str ''j1'')
        \<lparr>userId = str ''u1'', email = str ''e'', role = str ''user'', type = None, jti = None\<rparr>
        604800)
     = (Inl (ApiError ''Invalid refresh token'' 401), newTokenManager (str ''k''))
   \<and> refreshAccessToken_try
       (stubPlatform (Some \<lparr>userId = str ''u1'', email = str ''e'', role = str ''user'',
          type = Some (str ''refresh''), jti = Some (str ''j1''), iat = 5, exp = 604805\<rparr>))
       \<lparr>jwt = \<lparr>secret = str ''k''\<rparr>,
        refreshTokenStore = [(str ''j1'', TokenData (str ''u1'') 604805000)]\<rparr>
       604805001
       (signRefreshToken
          (stubPlatform (Some \<lparr>userId = str ''u1'', email = str ''e'', role = str ''user'',
             type = Some (str ''refresh''), jti = Some (str ''j1''), iat = 5, exp = 604805\<rparr>))
          \<lparr>secret = str ''k''\<rparr> 5000 (str ''j1'')
          \<lparr>userId = str ''u1'', email = str ''e'', role = str ''user'', type = None, jti = None\<rparr>
          604800)
     = (Inl (ApiError ''Refresh token expired'' 401),
        \<lparr>jwt = \<lparr>secret = str ''k''\<rparr>, refreshTokenStore = []\<rparr>)
   \<and> refreshAccessToken
       (stubPlatform (Some \<lparr>userId = str ''u1'', email = str ''e'', role = str ''user'',
          type = Some (str ''refresh''), jti = Some (str ''j1''), iat = 5, exp = 604805\<rparr>))
       \<lparr>jwt = \<lparr>secret = str ''k''\<rparr>,
        refreshTokenStore = [(str ''j1'', TokenData (str ''u1'') 604805000)]\<rparr>
       604805001
       (signRefreshToken
          (stubPlatform (Some \<lparr>userId = str ''u1'', email = str ''e'', role = str ''user'',
             type = Some (str ''refresh''), jti = Some (str ''j1''), iat = 5, exp = 604805\<rparr>))
          \<lparr>secret = str ''k''\<rparr> 5000 (str ''j1'')
          \<lparr>userId = str ''u1'', email = str ''e'', role = str ''user'', type = None, jti = None\<rparr>
          604800)
     = (Inl (ApiError ''Invalid refresh token'' 401),
        \<lparr>jwt = \<lparr>secret = str ''k''\<rparr>, refreshTokenStore = []\<rparr>)
   \<and> refreshAccessToken
       (stubPlatform (Some \<lparr>userId = str ''u1'', email = str ''e'', role = str ''user'',
          type = Some (str ''refresh''), jti = Some (str ''j1''), iat = 5, exp = 604805\<rparr>))
       \<lparr>jwt = \<lparr>secret = str ''k''\<rparr>,
        refreshTokenStore = [(str ''j1'', TokenData (str ''u1'') 604805000)]\<rparr>
       6000
       (signRefreshToken
          (stubPlatform (Some \<lparr>userId = str ''u1'', email = str ''e'', role = str ''user'',
             type = Some (str ''refresh''), jti = Some (str ''j1''), iat = 5, exp = 604805\<rparr>))
          \<lparr>secret = str ''k''\<rparr> 5000 (str ''j1'')
          \<lparr>userId = str ''u1'', email = str ''e'', role = str ''user'', type = None, jti = None\<rparr>
          604800)
     = (Inr \<lparr>grantAccessToken = signAccessToken
               (stubPlatform (Some \<lparr>userId = str ''u1'', email = str ''e'', role = str ''user'',
                  type = Some (str ''refresh''), jti = Some (str ''j1''), iat = 5, exp = 604805\<rparr>))
               \<lparr>secret = str ''k''\<rparr> 6000
               \<lparr>userId = str ''u1'', email = str ''e'', role = str ''user'',
                type = None, jti = None\<rparr> 900,
             grantExpiresIn = 900\<rparr>,
        \<lparr>jwt = \<lparr>secret = str ''k''\<rparr>,
         refreshTokenStore = [(str ''j1'', TokenData (str ''u1'') 604805000)]\<rparr>)"
proof -
  let ?fr = "\<lparr>userId = str ''u1'', email = str ''e'', role = str ''user'',
        type = Some (str ''refresh''), jti = Some (str ''j1''), iat = 5, exp = 604805\<rparr>"
  let ?P = "stubPlatform (Some ?fr)"
  let ?J = "\<lparr>secret = str ''k''\<rparr>"
  let ?c = "\<lparr>userId = str ''u1'', email = str ''e'', role = str ''user'', type = None, jti = None\<rparr>"
  let ?tok = "signRefreshToken ?P ?J 5000 (str ''j1'') ?c 604800"
  let ?tm0 = "newTokenManager (str ''k'')"
  let ?tm1 = "\<lparr>jwt = ?J, refreshTokenStore = [(str ''j1'', TokenData (str ''u1'') 604805000)]\<rparr>"
  have full: "fullPayload (?c\<lparr>type := Some (str ''refresh''), jti := Some (str ''j1'')\<rparr>) 5000 604800
      = ?fr" by (simp add: fullPayload_def)
  have faithful: "jsonFaithful ?P
      (fullPayload (?c\<lparr>type := Some (str ''refresh''), jti := Some (str ''j1'')\<rparr>) 5000 604800)"
    unfolding full by (rule stub_faithful)
  have v: "verifyRefreshToken ?P ?J clock' ?tok = Inr ?fr" if "clock' div 1000 \<le> 604805" for clock'
    using verifyRefreshToken_signed [OF faithful, of ?J clock'] that by (simp add: fullPayload_def)
  have v0: "verifyRefreshToken ?P (jwt ?tm0) 5000 ?tok = Inr ?fr"
    and v1: "verifyRefreshToken ?P (jwt ?tm1) 604805001 ?tok = Inr ?fr"
    and v2: "verifyRefreshToken ?P (jwt ?tm1) 6000 ?tok = Inr ?fr"
    using v [of 5000] v [of 604805001] v [of 6000] by (simp_all add: newTokenManager_def)
  have j: "str ''j1'' \<noteq> []" by (simp add: str_def)
  have g0: "Map_get (refreshTokenStore ?tm0) (str ''j1'') = None"
    by (simp add: newTokenManager_def Map_get_def)
  have g1: "Map_get (refreshTokenStore ?tm1) (str ''j1'') = Some (TokenData (str ''u1'') 604805000)"
    by (simp add: Map_get_def)
  have d1: "?tm1\<lparr>refreshTokenStore := Map_delete (refreshTokenStore ?tm1) (str ''j1'')\<rparr>
      = \<lparr>jwt = ?J, refreshTokenStore = []\<rparr>"
    by (simp add: Map_delete_def)
  have c1: "refreshAccessToken ?P ?tm0 5000 ?tok
      = (Inl (ApiError ''Invalid refresh token'' 401), ?tm0)"
    using C1_refreshAccessToken [where P = ?P and tm = ?tm0 and clock = 5000 and token = ?tok
        and rp = ?fr and j = "str ''j1''"] v0 g0
    by simp
  have c2: "refreshAccessToken_try ?P ?tm1 604805001 ?tok
      = (Inl (ApiError ''Refresh token expired'' 401), \<lparr>jwt = ?J, refreshTokenStore = []\<rparr>)"
    and c3: "refreshAccessToken ?P ?tm1 604805001 ?tok
      = (Inl (ApiError ''Invalid refresh token'' 401), \<lparr>jwt = ?J, refreshTokenStore = []\<rparr>)"
    using C1_refreshAccessToken [where P = ?P and tm = ?tm1 and clock = 604805001 and token = ?tok
        and rp = ?fr and j = "str ''j1''" and d = "TokenData (str ''u1'') 604805000"] v1 g1 j d1
    by simp_all
  have c4: "refreshAccessToken ?P ?tm1 6000 ?tok
      = (Inr \<lparr>grantAccessToken = signAccessToken ?P ?J 6000 ?c 900, grantExpiresIn = 900\<rparr>, ?tm1)"
    using C1_refreshAccessToken [where P = ?P and tm = ?tm1 and clock = 6000 and token = ?tok
        and rp = ?fr and j = "str ''j1''" and d = "TokenData (str ''u1'') 604805000"] v2 g1 j
    by simp
  from c1 c2 c3 c4 show ?thesis by (intro conjI)
qed

section \<open>Revoking all tokens of a user\<close>

lemma revoked_record_absent:
  assumes "distinct (map fst (refreshTokenStore tm))"
    and "Map_get (refreshTokenStore tm) j = Some d" "tokenUserId d = uid"
  shows "Map_get (refreshTokenStore (revokeAllUserTokens tm uid)) j = None"
proof -
  have "(j, d) \<in> set (refreshTokenStore tm)"
    using assms(2) by (simp add: Map_get_def map_of_SomeD)
  have "j \<notin> fst ` set (filter (\<lambda>(j, d). tokenUserId d \<noteq> uid) (refreshTokenStore tm))"
  proof
    assume "j \<in> fst ` set (filter (\<lambda>(j, d). tokenUserId d \<noteq> uid) (refreshTokenStore tm))"
    then obtain d' where "(j, d') \<in> set (refreshTokenStore tm)" "tokenUserId d' \<noteq> uid"
      by auto
    with assms(1) \<open>(j, d) \<in> set (refreshTokenStore tm)\<close> have "d' = d"
      by (meson eq_key_imp_eq_value)
    with \<open>tokenUserId d' \<noteq> uid\<close> assms(3) show False by simp
  qed
  then show ?thesis
    unfolding revokeAllUserTokens_store [OF assms(1)] Map_get_def
    by (simp add: map_of_eq_None_iff)
qed

lemma kept_record_present:
  assumes "Map_get (refreshTokenStore tm) j = Some d" "tokenUserId d \<noteq> uid"
    and "distinct (map fst (refreshTokenStore tm))"
  shows "Map_get (refreshTokenStore (revokeAllUserTokens tm uid)) j = Some d"
proof -
  have "(j, d) \<in> set (refreshTokenStore tm)"
    using assms(1) by (simp add: Map_get_def map_of_SomeD)
  then have "(j, d) \<in> set (filter (\<lambda>(j, d). tokenUserId d \<noteq> uid) (refreshTokenStore tm))"
    using assms(2) by simp
  moreover have "distinct (map fst (filter (\<lambda>(j, d). tokenUserId d \<noteq> uid) (refreshTokenStore tm)))"
    using assms(3) by (simp add: distinct_map_filter)
  ultimately show ?thesis
    unfolding revokeAllUserTokens_store [OF assms(3)] Map_get_def
    by (simp add: map_of_is_SomeI)
qed

lemma jwt_revokeAllUserTokens: "jwt (revokeAllUserTokens tm uid) = jwt tm"
  by (simp add: revokeAllUserTokens_def)

lemma scenario_stores:
  fixes s :: jsstring
  assumes f1: "jsonFaithful P (fullPayload (refreshClaims user1 j1) c1 604800)"
    and f2: "jsonFaithful P (fullPayload (refreshClaims user1 j2) c2 604800)"
    and f3: "jsonFaithful P (fullPayload (refreshClaims user2 j3) c3 604800)"
    and ne: "j1 \<noteq> []" "j2 \<noteq> []" "j3 \<noteq> []"
    and dj: "distinct [j1, j2, j3]"
  defines "tm1 \<equiv> snd (generateTokenPair P (newTokenManager s) c1 j1 user1)"
  defines "tm2 \<equiv> snd (generateTokenPair P tm1 c2 j2 user1)"
  defines "tm3 \<equiv> snd (generateTokenPair P tm2 c3 j3 user2)"
  shows "jwt tm3 = \<lparr>secret = s\<rparr>"
    and "refreshTokenStore tm3 =
       [(j1, TokenData (userId user1) ((c1 div 1000 + 604800) * 1000)),
        (j2, TokenData (userId user1) ((c2 div 1000 + 604800) * 1000)),
        (j3, TokenData (userId user2) ((c3 div 1000 + 604800) * 1000))]"
    and "map_sum id pairRefreshToken (fst (generateTokenPair P (newTokenManager s) c1 j1 user1))
       = Inr (signRefreshToken P \<lparr>secret = s\<rparr> c1 j1 (claimsOf user1) 604800)"
    and "map_sum id pairRefreshToken (fst (generateTokenPair P tm1 c2 j2 user1))
       = Inr (signRefreshToken P \<lparr>secret = s\<rparr> c2 j2 (claimsOf user1) 604800)"
    and "map_sum id pairRefreshToken (fst (generateTokenPair P tm2 c3 j3 user2))
       = Inr (signRefreshToken P \<lparr>secret = s\<rparr> c3 j3 (claimsOf user2) 604800)"
proof -
  have tm1: "tm1 = \<lparr>jwt = \<lparr>secret = s\<rparr>, refreshTokenStore =
       [(j1, TokenData (userId user1) ((c1 div 1000 + 604800) * 1000))]\<rparr>"
    unfolding tm1_def generateTokenPair_claims [OF f1 ne(1)]
    by (simp add: newTokenManager_def)
  have tm2: "tm2 = \<lparr>jwt = \<lparr>secret = s\<rparr>, refreshTokenStore =
       [(j1, TokenData (userId user1) ((c1 div 1000 + 604800) * 1000)),
        (j2, TokenData (userId user1) ((c2 div 1000 + 604800) * 1000))]\<rparr>"
    unfolding tm2_def generateTokenPair_claims [OF f2 ne(2)] tm1
    using dj by simp
  have tm3: "tm3 = \<lparr>jwt = \<lparr>secret = s\<rparr>, refreshTokenStore =
       [(j1, TokenData (userId user1) ((c1 div 1000 + 604800) * 1000)),
        (j2, TokenData (userId user1) ((c2 div 1000 + 604800) * 1000)),
        (j3, TokenData (userId user2) ((c3 div 1000 + 604800) * 1000))]\<rparr>"
    unfolding tm3_def generateTokenPair_claims [OF f3 ne(3)] tm2
    using dj by simp
  show "jwt tm3 = \<lparr>secret = s\<rparr>" by (simp add: tm3)
  show "refreshTokenStore tm3 =
       [(j1, TokenData (userId user1) ((c1 div 1000 + 604800) * 1000)),
        (j2, TokenData (userId user1) ((c2 div 1000 + 604800) * 1000)),
        (j3, TokenData (userId user2) ((c3 div 1000 + 604800) * 1000))]" by (simp add: tm3)
  show "map_sum id pairRefreshToken (fst (generateTokenPair P (newTokenManager s) c1 j1 user1))
       = Inr (signRefreshToken P \<lparr>secret = s\<rparr> c1 j1 (claimsOf user1) 604800)"
    unfolding generateTokenPair_claims [OF f1 ne(1)] by (simp add: newTokenManager_def)
  show "map_sum id pairRefreshToken (fst (generateTokenPair P tm1 c2 j2 user1))
       = Inr (signRefreshToken P \<lparr>secret = s\<rparr> c2 j2 (claimsOf user1) 604800)"
    unfolding generateTokenPair_claims [OF f2 ne(2)] by (simp add: tm1)
  show "map_sum id pairRefreshToken (fst (generateTokenPair P tm2 c3 j3 user2))
       = Inr (signRefreshToken P \<lparr>secret = s\<rparr> c3 j3 (claimsOf user2) 604800)"
    unfolding generateTokenPair_claims [OF f3 ne(3)] by (simp add: tm2)
qed

text \<open>
  Claim C8. In a registry with one record per token id (which every registry the
  program builds is, see \<open>invariant_registry\<close>), \<open>revokeAllUserTokens\<close> keeps exactly the
  records of the other users, in their order and with their contents, and does not touch
  the signing key; a record of another user is found afterwards as before, and a refresh
  token whose record belonged to the user fails \<open>refreshAccessToken\<close> with \<open>Invalid
  refresh token\<close>.

  The scenario: a new token manager issues two token pairs for a user and one for
  another user, under three different token ids, and then revokes all tokens of the first
  user. The registry then holds the record of the second user's token and nothing else,
  and both refresh tokens of the first user fail \<open>refreshAccessToken\<close>, at any time.
\<close>

theorem C8_revokeAllUserTokens:
  "(distinct (map fst (refreshTokenStore tm)) \<longrightarrow>
      refreshTokenStore (revokeAllUserTokens tm uid)
        = filter (\<lambda>(j, d). tokenUserId d \<noteq> uid) (refreshTokenStore tm)
      \<and> jwt (revokeAllUserTokens tm uid) = jwt tm
      \<and> (Map_get (refreshTokenStore tm) j = Some d \<and> tokenUserId d \<noteq> uid \<longrightarrow>
           Map_get (refreshTokenStore (revokeAllUserTokens tm uid)) j = Some d)
      \<and> (Map_get (refreshTokenStore tm) j = Some d \<and> tokenUserId d = uid
           \<and> verifyRefreshToken P (jwt tm) clock token = Inr rp \<and> jti rp = Some j \<longrightarrow>
           refreshAccessToken P (revokeAllUserTokens tm uid) clock token
             = (Inl (ApiError ''Invalid refresh token'' 401), revokeAllUserTokens tm uid)))
   \<and> (userId user1 \<noteq> userId user2 \<and> distinct [j1, j2, j3] \<and> j1 \<noteq> [] \<and> j2 \<noteq> [] \<and> j3 \<noteq> []
        \<and> jsonFaithful P (fullPayload (refreshClaims user1 j1) c1 604800)
        \<and> jsonFaithful P (fullPayload (refreshClaims user1 j2) c2 604800)
        \<and> jsonFaithful P (fullPayload (refreshClaims user2 j3) c3 604800) \<longrightarrow>
       (let (r1, tm1) = generateTokenPair P (newTokenManager s) c1 j1 user1;
            (r2, tm2) = generateTokenPair P tm1 c2 j2 user1;
            (r3, tm3) = generateTokenPair P tm2 c3 j3 user2;
            tm4 = revokeAllUserTokens tm3 (userId user1);
            t1 = signRefreshToken P \<lparr>secret = s\<rparr> c1 j1 (claimsOf user1) 604800;
            t2 = signRefreshToken P \<lparr>secret = s\<rparr> c2 j2 (claimsOf user1) 604800
        in map_sum id pairRefreshToken r1 = Inr t1
           \<and> map_sum id pairRefreshToken r2 = Inr t2
           \<and> refreshTokenStore tm4
               = [(j3, TokenData (userId user2) ((c3 div 1000 + 604800) * 1000))]
           \<and> refreshAccessToken P tm4 clock1 t1
               = (Inl (ApiError ''Invalid refresh token'' 401), tm4)
           \<and> refreshAccessToken P tm4 clock2 t2
               = (Inl (ApiError ''Invalid refresh token'' 401), tm4)))"
proof (intro conjI impI)
  assume d: "distinct (map fst (refreshTokenStore tm))"
  show "refreshTokenStore (revokeAllUserTokens tm uid)
        = filter (\<lambda>(j, d). tokenUserId d \<noteq> uid) (refreshTokenStore tm)"
    by (rule revokeAllUserTokens_store [OF d])
  show "jwt (revokeAllUserTokens tm uid) = jwt tm" by (rule jwt_revokeAllUserTokens)
  show "Map_get (refreshTokenStore (revokeAllUserTokens tm uid)) j = Some d"
    if "Map_get (refreshTokenStore tm) j = Some d \<and> tokenUserId d \<noteq> uid"
    using that d by (simp add: kept_record_present)
  show "refreshAccessToken P (revokeAllUserTokens tm uid) clock token
             = (Inl (ApiError ''Invalid refresh token'' 401), revokeAllUserTokens tm uid)"
    if "Map_get (refreshTokenStore tm) j = Some d \<and> tokenUserId d = uid
           \<and> verifyRefreshToken P (jwt tm) clock token = Inr rp \<and> jti rp = Some j"
  proof -
    from that d have "Map_get (refreshTokenStore (revokeAllUserTokens tm uid)) j = None"
      by (simp add: revoked_record_absent)
    moreover from that
    have "verifyRefreshToken P (jwt (revokeAllUserTokens tm uid)) clock token = Inr rp"
      by (simp add: jwt_revokeAllUserTokens)
    ultimately show ?thesis
      using that by (simp add: refreshAccessToken_cases)
  qed
next
  assume a: "userId user1 \<noteq> userId user2 \<and> distinct [j1, j2, j3] \<and> j1 \<noteq> [] \<and> j2 \<noteq> [] \<and> j3 \<noteq> []
        \<and> jsonFaithful P (fullPayload (refreshClaims user1 j1) c1 604800)
        \<and> jsonFaithful P (fullPayload (refreshClaims user1 j2) c2 604800)
        \<and> jsonFaithful P (fullPayload (refreshClaims user2 j3) c3 604800)"
  define tm1 where "tm1 = snd (generateTokenPair P (newTokenManager s) c1 j1 user1)"
  define tm2 where "tm2 = snd (generateTokenPair P tm1 c2 j2 user1)"
  define tm3 where "tm3 = snd (generateTokenPair P tm2 c3 j3 user2)"
  define tm4 where "tm4 = revokeAllUserTokens tm3 (userId user1)"
  from a have f: "jsonFaithful P (fullPayload (refreshClaims user1 j1) c1 604800)"
    "jsonFaithful P (fullPayload (refreshClaims user1 j2) c2 604800)"
    "jsonFaithful P (fullPayload (refreshClaims user2 j3) c3 604800)"
    and ne: "j1 \<noteq> []" "j2 \<noteq> []" "j3 \<noteq> []" and dj: "distinct [j1, j2, j3]"
    and u: "userId user1 \<noteq> userId user2" by simp_all
  note sc = scenario_stores [OF f ne dj, of s, folded tm1_def tm2_def tm3_def]
  have dist: "distinct (map fst (refreshTokenStore tm3))"
    using dj by (simp add: sc(2))
  have store4: "refreshTokenStore tm4
      = [(j3, TokenData (userId user2) ((c3 div 1000 + 604800) * 1000))]"
    unfolding tm4_def revokeAllUserTokens_store [OF dist] sc(2) using u by simp
  have jwt4: "jwt tm4 = \<lparr>secret = s\<rparr>"
    by (simp add: tm4_def jwt_revokeAllUserTokens sc(1))
  have absent: "Map_get (refreshTokenStore tm4) j1 = None" "Map_get (refreshTokenStore tm4) j2 = None"
    using dj by (simp_all add: store4 Map_get_def)
  have r1: "refreshAccessToken P tm4 clock1 (signRefreshToken P \<lparr>secret = s\<rparr> c1 j1 (claimsOf user1) 604800)
      = (Inl (ApiError ''Invalid refresh token'' 401), tm4)"
    using refresh_fails_when_absent [OF f(1) absent(1), of clock1] by (simp add: jwt4)
  have r2: "refreshAccessToken P tm4 clock2 (signRefreshToken P \<lparr>secret = s\<rparr> c2 j2 (claimsOf user1) 604800)
      = (Inl (ApiError ''Invalid refresh token'' 401), tm4)"
    using refresh_fails_when_absent [OF f(2) absent(2), of clock2] by (simp add: jwt4)
  show "let (r1, tm1) = generateTokenPair P (newTokenManager s) c1 j1 user1;
            (r2, tm2) = generateTokenPair P tm1 c2 j2 user1;
            (r3, tm3) = generateTokenPair P tm2 c3 j3 user2;
            tm4 = revokeAllUserTokens tm3 (userId user1);
            t1 = signRefreshToken P \<lparr>secret = s\<rparr> c1 j1 (claimsOf user1) 604800;
            t2 = signRefreshToken P \<lparr>secret = s\<rparr> c2 j2 (claimsOf user1) 604800
        in map_sum id pairRefreshToken r1 = Inr t1
           \<and> map_sum id pairRefreshToken r2 = Inr t2
           \<and> refreshTokenStore tm4
               = [(j3, TokenData (userId user2) ((c3 div 1000 + 604800) * 1000))]
           \<and> refreshAccessToken P tm4 clock1 t1
               = (Inl (ApiError ''Invalid refresh token'' 401), tm4)
           \<and> refreshAccessToken P tm4 clock2 t2
               = (Inl (ApiError ''Invalid refresh token'' 401), tm4)"
    using sc(3,4) store4 r1 r2
    unfolding tm4_def tm3_def tm2_def tm1_def
    by (simp add: Let_def case_prod_unfold)
qed

theorem C8_revokeAllUserTokens_witness:
  "refreshTokenStore
     (revokeAllUserTokens
        \<lparr>jwt = \<lparr>secret = str ''k''\<rparr>,
         refreshTokenStore = [(str ''j1'', TokenData (str ''u1'') 604805000),
                              (str ''j2'', TokenData (str ''u1'') 604805000),
                              (str ''j3'', TokenData (str ''u2'') 604805000)]\<rparr>
        (str ''u1''))
     = [(str ''j3'', TokenData (str ''u2'') 604805000)]
   \<and> (let P = tablePlatform
          [(str ''1'', \<lparr>userId = str ''u1'', email = str ''e'', role = str ''user'',
              type = Some (str ''refresh''), jti = Some (str ''j1''), iat = 5, exp = 604805\<rparr>),
           (str ''2'', \<lparr>userId = str ''u1'', email = str ''e'', role = str ''user'',
              type = Some (str ''refresh''), jti = Some (str ''j2''), iat = 5, exp = 604805\<rparr>),
           (str ''3'', \<lparr>userId = str ''u2'', email = str ''f'', role = str ''user'',
              type = Some (str ''refresh''), jti = Some (str ''j3''), iat = 5, exp = 604805\<rparr>)];
          user1 = \<lparr>userId = str ''u1'', email = str ''e'', role = str ''user''\<rparr>;
          user2 = \<lparr>userId = str ''u2'', email = str ''f'', role = str ''user''\<rparr>;
          tm1 = snd (generateTokenPair P (newTokenManager (str ''k'')) 5000 (str ''j1'') user1);
          tm2 = snd (generateTokenPair P tm1 5000 (str ''j2'') user1);
          tm3 = snd (generateTokenPair P tm2 5000 (str ''j3'') user2);
          tm4 = revokeAllUserTokens tm3 (str ''u1'')
      in refreshTokenStore tm4 = [(str ''j3'', TokenData (str ''u2'') 604805000)]
         \<and> refreshAccessToken P tm4 6000
             (signRefreshToken P \<lparr>secret = str ''k''\<rparr> 5000 (str ''j1'') (claimsOf user1) 604800)
             = (Inl (ApiError ''Invalid refresh token'' 401), tm4)
         \<and> refreshAccessToken P tm4 6000
             (signRefreshToken P \<lparr>secret = str ''k''\<rparr> 5000 (str ''j2'') (claimsOf user1) 604800)
             = (Inl (ApiError ''Invalid refresh token'' 401), tm4))"
proof -
  let ?tm = "\<lparr>jwt = \<lparr>secret = str ''k''\<rparr>,
         refreshTokenStore = [(str ''j1'', TokenData (str ''u1'') 604805000),
                              (str ''j2'', TokenData (str ''u1'') 604805000),
                              (str ''j3'', TokenData (str ''u2'') 604805000)]\<rparr>"
  let ?f1 = "\<lparr>userId = str ''u1'', email = str ''e'', role = str ''user'',
              type = Some (str ''refresh''), jti = Some (str ''j1''), iat = 5, exp = 604805\<rparr>"
  let ?f2 = "\<lparr>userId = str ''u1'', email = str ''e'', role = str ''user'',
              type = Some (str ''refresh''), jti = Some (str ''j2''), iat = 5, exp = 604805\<rparr>"
  let ?f3 = "\<lparr>userId = str ''u2'', email = str ''f'', role = str ''user'',
              type = Some (str ''refresh''), jti = Some (str ''j3''), iat = 5, exp = 604805\<rparr>"
  let ?P = "tablePlatform [(str ''1'', ?f1), (str ''2'', ?f2), (str ''3'', ?f3)]"
  let ?u1 = "\<lparr>userId = str ''u1'', email = str ''e'', role = str ''user''\<rparr>"
  let ?u2 = "\<lparr>userId = str ''u2'', email = str ''f'', role = str ''user''\<rparr>"
  have names: "str ''j1'' \<noteq> str ''j2''" "str ''j1'' \<noteq> str ''j3''" "str ''j2'' \<noteq> str ''j3''"
    "str ''j1'' \<noteq> []" "str ''j2'' \<noteq> []" "str ''j3'' \<noteq> []" "str ''u1'' \<noteq> str ''u2''"
    "str ''1'' \<noteq> str ''2''" "str ''1'' \<noteq> str ''3''" "str ''2'' \<noteq> str ''3''"
    by (simp_all add: str_def)
  have wf: "isWellFormed (str ''1'')" "isWellFormed (str ''2'')" "isWellFormed (str ''3'')"
    "\<not> startsWith (str ''1'') [0xFEFF]" "\<not> startsWith (str ''2'') [0xFEFF]"
    "\<not> startsWith (str ''3'') [0xFEFF]"
    by (simp_all add: isWellFormed_def startsWith_def str_def isHighSurrogate_def isLowSurrogate_def)
  have full: "fullPayload (refreshClaims ?u1 (str ''j1'')) 5000 604800 = ?f1"
    "fullPayload (refreshClaims ?u1 (str ''j2'')) 5000 604800 = ?f2"
    "fullPayload (refreshClaims ?u2 (str ''j3'')) 5000 604800 = ?f3"
    by (simp_all add: fullPayload_def refreshClaims_def)
  have faithful: "jsonFaithful ?P (fullPayload (refreshClaims ?u1 (str ''j1'')) 5000 604800)"
    "jsonFaithful ?P (fullPayload (refreshClaims ?u1 (str ''j2'')) 5000 604800)"
    "jsonFaithful ?P (fullPayload (refreshClaims ?u2 (str ''j3'')) 5000 604800)"
    unfolding full
    using names wf by (simp_all add: jsonFaithful_def tablePlatform_def)
  have dist: "distinct (map fst (refreshTokenStore ?tm))" using names by simp
  have part1: "refreshTokenStore (revokeAllUserTokens ?tm (str ''u1''))
      = [(str ''j3'', TokenData (str ''u2'') 604805000)]"
    using C8_revokeAllUserTokens [where tm = ?tm and uid = "str ''u1''"] dist names by simp
  have hyp: "userId ?u1 \<noteq> userId ?u2 \<and> distinct [str ''j1'', str ''j2'', str ''j3'']
      \<and> str ''j1'' \<noteq> [] \<and> str ''j2'' \<noteq> [] \<and> str ''j3'' \<noteq> []
      \<and> jsonFaithful ?P (fullPayload (refreshClaims ?u1 (str ''j1'')) 5000 604800)
      \<and> jsonFaithful ?P (fullPayload (refreshClaims ?u1 (str ''j2'')) 5000 604800)
      \<and> jsonFaithful ?P (fullPayload (refreshClaims ?u2 (str ''j3'')) 5000 604800)"
    using names faithful by simp
  have part2: "let (r1, tm1) = generateTokenPair ?P (newTokenManager (str ''k'')) 5000 (str ''j1'') ?u1;
            (r2, tm2) = generateTokenPair ?P tm1 5000 (str ''j2'') ?u1;
            (r3, tm3) = generateTokenPair ?P tm2 5000 (str ''j3'') ?u2;
            tm4 = revokeAllUserTokens tm3 (userId ?u1);
            t1 = signRefreshToken ?P \<lparr>secret = str ''k''\<rparr> 5000 (str ''j1'') (claimsOf ?u1) 604800;
            t2 = signRefreshToken ?P \<lparr>secret = str ''k''\<rparr> 5000 (str ''j2'') (claimsOf ?u1) 604800
        in map_sum id pairRefreshToken r1 = Inr t1
           \<and> map_sum id pairRefreshToken r2 = Inr t2
           \<and> refreshTokenStore tm4
               = [(str ''j3'', TokenData (userId ?u2) ((5000 div 1000 + 604800) * 1000))]
           \<and> refreshAccessToken ?P tm4 6000 t1
               = (Inl (ApiError ''Invalid refresh token'' 401), tm4)
           \<and> refreshAccessToken ?P tm4 6000 t2
               = (Inl (ApiError ''Invalid refresh token'' 401), tm4)"
    using C8_revokeAllUserTokens [where P = ?P and ?user1.0 = ?u1 and ?user2.0 = ?u2
        and ?j1.0 = "str ''j1''" and ?j2.0 = "str ''j2''" and ?j3.0 = "str ''j3''"
        and ?c1.0 = 5000 and ?c2.0 = 5000 and ?c3.0 = 5000 and s = "str ''k''"
        and ?clock1.0 = 6000 and ?clock2.0 = 6000] hyp
    by blast
  from part1 part2 show ?thesis
    by (simp add: Let_def case_prod_unfold)
qed

section \<open>The process-wide token manager\<close>

lemma jwt_generateTokenPair: "jwt (snd (generateTokenPair P tm clock uuid user)) = jwt tm"
  by (simp add: generateTokenPair_def Let_def split: sum.splits option.splits)

lemma jwt_refreshAccessToken: "jwt (snd (refreshAccessToken P tm clock token)) = jwt tm"
  by (simp add: refreshAccessToken_def refreshAccessToken_try_def Let_def
      split: sum.splits option.splits prod.splits if_splits)

lemma jwt_revokeRefreshToken: "jwt (revokeRefreshToken P tm clock token) = jwt tm"
  by (simp add: revokeRefreshToken_def split: sum.splits option.splits)

lemma jwt_cleanupExpiredTokens: "jwt (cleanupExpiredTokens tm clock) = jwt tm"
  by (simp add: cleanupExpiredTokens_def Let_def)

lemmas jwt_unchanged = jwt_generateTokenPair jwt_refreshAccessToken jwt_revokeRefreshToken
  jwt_revokeAllUserTokens jwt_cleanupExpiredTokens

lemma onObject_keyedWith:
  assumes "keyedWith m ref s" "\<And>this. jwt (f this) = jwt this"
  shows "keyedWith (onObject r f m) ref s"
  using assms by (auto simp: keyedWith_def onObject_def nth_list_update)

lemma getTokenManager_keyedWith:
  assumes "keyedWith m ref s"
  shows "getTokenManager m s' = (ref, m)"
  using assms by (simp add: keyedWith_def getTokenManager_def)

lemma step_keyedWith:
  assumes "keyedWith m ref s"
  shows "keyedWith (step P c m) ref s"
proof (cases c)
  case (GetTokenManager s')
  then show ?thesis using assms getTokenManager_keyedWith [OF assms] by simp
qed (simp_all add: onObject_keyedWith [OF assms] jwt_unchanged)

lemma run_keyedWith:
  assumes "keyedWith m ref s"
  shows "keyedWith (fold (step P) calls m) ref s"
  using assms by (induction calls arbitrary: m) (simp_all add: step_keyedWith)

lemma first_getTokenManager:
  assumes "globalTokenManager m = None"
  shows "keyedWith (snd (getTokenManager m s)) (fst (getTokenManager m s)) s"
  using assms by (simp add: getTokenManager_def keyedWith_def newTokenManager_def)

text \<open>
  Claim C9. Starting from a module whose variable is \<^verbatim>\<open>null\<close>: after
  \<open>getTokenManager s1\<close> and any sequence of calls of the accessor and of methods of token
  managers, \<open>getTokenManager s2\<close> returns the reference that the first call returned and
  changes nothing, and the object it refers to still signs and verifies with the secret
  \<open>s1\<close>.
\<close>

theorem C9_getTokenManager:
  "globalTokenManager m = None \<longrightarrow>
     (let (r1, m1) = getTokenManager m s1;
          m2 = fold (step P) calls m1;
          (r2, m3) = getTokenManager m2 s2
      in r2 = r1 \<and> m3 = m2 \<and> r1 < length (heap m3) \<and> jwt (heap m3 ! r1) = \<lparr>secret = s1\<rparr>)"
proof
  assume "globalTokenManager m = None"
  then have "keyedWith (fold (step P) calls (snd (getTokenManager m s1)))
      (fst (getTokenManager m s1)) s1"
    by (intro run_keyedWith first_getTokenManager)
  then show "let (r1, m1) = getTokenManager m s1;
          m2 = fold (step P) calls m1;
          (r2, m3) = getTokenManager m2 s2
      in r2 = r1 \<and> m3 = m2 \<and> r1 < length (heap m3) \<and> jwt (heap m3 ! r1) = \<lparr>secret = s1\<rparr>"
    using getTokenManager_keyedWith [of _ _ s1 s2]
    by (auto simp: Let_def case_prod_unfold keyedWith_def)
qed

theorem C9_getTokenManager_witness:
  "(let (r1, m1) = getTokenManager initialModule (str ''first'');
        m2 = fold (step (stubPlatform None))
               [GenerateTokenPair 0 5000 (str ''j1'')
                  \<lparr>userId = str ''u1'', email = str ''e'', role = str ''user''\<rparr>,
                GetTokenManager (str ''other''),
                RevokeAllUserTokens 0 (str ''u1'')] m1;
        (r2, m3) = getTokenManager m2 (str ''second'')
    in r2 = r1 \<and> m3 = m2 \<and> r1 < length (heap m3)
       \<and> jwt (heap m3 ! r1) = \<lparr>secret = str ''first''\<rparr>)
   \<and> fst (getTokenManager initialModule (str ''first'')) = 0"
proof -
  have init: "globalTokenManager initialModule = None" by (simp add: initialModule_def)
  have r1: "fst (getTokenManager initialModule (str ''first'')) = 0"
    by (simp add: getTokenManager_def initialModule_def)
  from mp [OF C9_getTokenManager [where m = initialModule and ?s1.0 = "str ''first''"
      and ?s2.0 = "str ''second''" and P = "stubPlatform None"
      and calls = "[GenerateTokenPair 0 5000 (str ''j1'')
                  \<lparr>userId = str ''u1'', email = str ''e'', role = str ''user''\<rparr>,
                GetTokenManager (str ''other''),
                RevokeAllUserTokens 0 (str ''u1'')]"] init] r1
  show ?thesis by (intro conjI)
qed

section \<open>The state of the OAuth handshake\<close>

text \<open>
  Claim C2. A login callback is not always aborted when its state is not a valid one:
  \<^item> \<open>callbackGitHub\<close> called without a \<open>state\<close> parameter skips the check and issues a
    token;
  \<^item> \<open>handleGitHubCallback\<close> never looks at the state, and issues a token for a state that
    was never issued;
  \<^item> \<open>callbackGitHub\<close> called with a state that is not in the cache aborts with
    \<open>invalid_state\<close>.

  The handling of the state itself is as claimed: consuming an issued state succeeds
  exactly within its 600 seconds, a state cannot be consumed twice, and a state that was
  never issued is refused.
\<close>

theorem C2_oauth_state:
  "callbackGitHub P (\<lambda>code. Some user) JWT_SECRET cache clock
      \<lparr>code_param = Some (str ''c''), state_param = None, error_param = None\<rparr>
     = (TokenIssued (generateUserToken P \<lparr>secret = JWT_SECRET\<rparr> clock user), cache)
   \<and> handleGitHubCallback P (\<lambda>code. Some user) JWT_SECRET clock
      \<lparr>code_param = Some (str ''c''), state_param = Some (str ''never-issued''),
       error_param = None\<rparr>
     = TokenIssued (generateUserToken P \<lparr>secret = JWT_SECRET\<rparr> clock user)
   \<and> callbackGitHub P authenticateUser JWT_SECRET Map.empty clock
      \<lparr>code_param = Some (str ''c''), state_param = Some (str ''never-issued''),
       error_param = None\<rparr>
     = (LoginAborted (str ''invalid_state''), Map.empty)
   \<and> fst (consumeState (snd (issueState cache clock uuid)) clock' uuid)
       = (clock' div 1000 < clock div 1000 + 600)
   \<and> \<not> (fst (consumeState cache clock state)
        \<and> fst (consumeState (snd (consumeState cache clock state)) clock' state))
   \<and> fst (consumeState Map.empty clock (str ''never-issued'')) = False"
proof -
  have c: "str ''c'' \<noteq> []" "str ''never-issued'' \<noteq> []" "str ''valid'' \<noteq> []"
    by (simp_all add: str_def)
  show ?thesis
    using c
    by (simp add: callbackGitHub_def handleGitHubCallback_def truthy_def consumeState_def
        issueState_def KV_get_def KV_put_def KV_delete_def Let_def split: option.splits)
qed

end
